theory Spec2Isabelle
  imports Main "HOL-Library.Word"
begin

section \<open>Strings, bytes and numbers of the runtime\<close>

text \<open>
  The handler of \<^verbatim>\<open>src/app/api/chat/route.ts\<close> runs on a JavaScript engine. Its strings
  are sequences of UTF-16 code units, and \<^verbatim>\<open>message.length\<close> counts code units; the
  chunks it enqueues are \<^verbatim>\<open>Uint8Array\<close>s. Literals of the source are written with
  \<open>ascii\<close>; the two pictographs of the source (U+1F50D, a surrogate pair, and U+274C)
  and the characters that an Isabelle string cannot hold are written as numerals.
\<close>

type_synonym code_unit = "16 word"
type_synonym jstring = "code_unit list"
type_synonym byte = "8 word"

definition ascii :: "string \<Rightarrow> jstring" where
  "ascii s = map of_char s"

definition digit_char :: "nat \<Rightarrow> char" where
  "digit_char d = ''0123456789'' ! d"

text \<open>
  Decimal digits of an integer. The engine's numbers are doubles: it prints an integer
  in exactly these digits while the integer is safe (magnitude at most \<open>2^53 - 1\<close>);
  string lengths, the clock and status codes are such integers.
\<close>

fun show_nat :: "nat \<Rightarrow> string" where
  "show_nat n = (if n < 10 then [digit_char n] else show_nat (n div 10) @ [digit_char (n mod 10)])"

declare show_nat.simps [simp del]

definition show_int :: "int \<Rightarrow> string" where
  "show_int i = (if i < 0 then CHR ''-'' # show_nat (nat (- i)) else show_nat (nat i))"

definition is_high_surrogate :: "code_unit \<Rightarrow> bool" where
  "is_high_surrogate u = (0xD800 \<le> u \<and> u \<le> 0xDBFF)"

definition is_low_surrogate :: "code_unit \<Rightarrow> bool" where
  "is_low_surrogate u = (0xDC00 \<le> u \<and> u \<le> 0xDFFF)"

definition is_surrogate :: "code_unit \<Rightarrow> bool" where
  "is_surrogate u = (0xD800 \<le> u \<and> u \<le> 0xDFFF)"

text \<open>\<^verbatim>\<open>String.prototype.split(sep)\<close> with a one-unit separator: never an empty list.\<close>

fun split_on :: "'a \<Rightarrow> 'a list \<Rightarrow> 'a list list" where
  "split_on d [] = [[]]"
| "split_on d (x # xs) =
     (if x = d then [] # split_on d xs
      else (x # hd (split_on d xs)) # tl (split_on d xs))"

text \<open>\<^verbatim>\<open>Array.prototype.join(sep)\<close> on an array of strings.\<close>

fun join :: "jstring \<Rightarrow> jstring list \<Rightarrow> jstring" where
  "join sep [] = []"
| "join sep [x] = x"
| "join sep (x # y # ys) = x @ sep @ join sep (y # ys)"

section \<open>JSON values\<close>

text \<open>
  What \<^verbatim>\<open>JSON.parse\<close> returns and \<^verbatim>\<open>JSON.stringify\<close> takes. An object is the list
  of its own properties in enumeration order; \<open>undefined\<close> (an absent property) is
  \<open>None\<close> of \<open>json option\<close>.
\<close>

datatype json =
    JNull
  | JBool bool
  | JNum int
  | JStr jstring
  | JArr "json list"
  | JObj "(jstring \<times> json) list"

subsection \<open>\<^verbatim>\<open>JSON.stringify\<close>\<close>

definition hex_digit :: "nat \<Rightarrow> code_unit" where
  "hex_digit d = of_nat (if d < 10 then 48 + d else 87 + d)"

text \<open>\<open>\uXXXX\<close> with four lower-case hexadecimal digits.\<close>

definition unicode_escape :: "code_unit \<Rightarrow> jstring" where
  "unicode_escape u =
     [0x5C, 0x75, hex_digit (unat u div 4096), hex_digit (unat u div 256 mod 16),
      hex_digit (unat u div 16 mod 16), hex_digit (unat u mod 16)]"

text \<open>
  One code point that is not a well-formed surrogate pair: the two-character escapes for
  backspace, tab, line feed, form feed, carriage return, the double quote and the
  backslash; \<open>\uXXXX\<close> for the other control characters and for a lone surrogate; the
  unit itself otherwise.
\<close>

definition quote_unit :: "code_unit \<Rightarrow> jstring" where
  "quote_unit u =
     (if u = 0x08 then [0x5C, 0x62]
      else if u = 0x09 then [0x5C, 0x74]
      else if u = 0x0A then [0x5C, 0x6E]
      else if u = 0x0C then [0x5C, 0x66]
      else if u = 0x0D then [0x5C, 0x72]
      else if u = 0x22 then [0x5C, 0x22]
      else if u = 0x5C then [0x5C, 0x5C]
      else if u < 0x20 \<or> is_surrogate u then unicode_escape u
      else [u])"

fun quote_units :: "jstring \<Rightarrow> jstring" where
  "quote_units [] = []"
| "quote_units [u] = quote_unit u"
| "quote_units (u # v # us) =
     (if is_high_surrogate u \<and> is_low_surrogate v then u # v # quote_units us
      else quote_unit u @ quote_units (v # us))"

definition QuoteJSONString :: "jstring \<Rightarrow> jstring" where
  "QuoteJSONString s = 0x22 # quote_units s @ [0x22]"

fun JSON_stringify :: "json \<Rightarrow> jstring" where
  "JSON_stringify JNull = ascii ''null''"
| "JSON_stringify (JBool b) = ascii (if b then ''true'' else ''false'')"
| "JSON_stringify (JNum n) = ascii (show_int n)"
| "JSON_stringify (JStr s) = QuoteJSONString s"
| "JSON_stringify (JArr xs) = ascii ''['' @ join (ascii '','') (map JSON_stringify xs) @ ascii '']''"
| "JSON_stringify (JObj fs) =
     ascii ''{'' @
     join (ascii '','')
       (map (\<lambda>kv. QuoteJSONString (fst kv) @ ascii '':'' @ JSON_stringify (snd kv)) fs) @
     ascii ''}''"

subsection \<open>\<^verbatim>\<open>TextEncoder.prototype.encode\<close>\<close>

text \<open>
  The string is read as code points (a high surrogate followed by a low one is one code
  point), a lone surrogate is replaced by U+FFFD, and every scalar value is written in
  UTF-8.
\<close>

fun code_points :: "jstring \<Rightarrow> nat list" where
  "code_points [] = []"
| "code_points [u] = [unat u]"
| "code_points (u # v # us) =
     (if is_high_surrogate u \<and> is_low_surrogate v
      then (0x10000 + (unat u - 0xD800) * 0x400 + (unat v - 0xDC00)) # code_points us
      else unat u # code_points (v # us))"

definition scalar_value :: "nat \<Rightarrow> nat" where
  "scalar_value cp = (if 0xD800 \<le> cp \<and> cp \<le> 0xDFFF then 0xFFFD else cp)"

definition byte_of :: "nat \<Rightarrow> byte" where
  "byte_of n = of_nat n"

definition utf8_bytes :: "nat \<Rightarrow> byte list" where
  "utf8_bytes cp =
     (if cp < 0x80 then [byte_of cp]
      else if cp < 0x800 then [byte_of (0xC0 + cp div 64), byte_of (0x80 + cp mod 64)]
      else if cp < 0x10000 then
        [byte_of (0xE0 + cp div 4096), byte_of (0x80 + cp div 64 mod 64), byte_of (0x80 + cp mod 64)]
      else
        [byte_of (0xF0 + cp div 262144), byte_of (0x80 + cp div 4096 mod 64),
         byte_of (0x80 + cp div 64 mod 64), byte_of (0x80 + cp mod 64)])"

definition TextEncoder_encode :: "jstring \<Rightarrow> byte list" where
  "TextEncoder_encode s = concat (map (\<lambda>cp. utf8_bytes (scalar_value cp)) (code_points s))"

section \<open>Thrown values\<close>

text \<open>
  A \<^verbatim>\<open>throw\<close> of the source or of the runtime is the \<open>Inl\<close> of a result
  \<open>thrown + 'a\<close>. A thrown value is an error raised by the engine itself (a
  \<^verbatim>\<open>TypeError\<close> or a \<^verbatim>\<open>URIError\<close>, both instances of \<^verbatim>\<open>Error\<close>), some other
  instance of \<^verbatim>\<open>Error\<close> with its message (the empty string for an error made without
  one), or a value that is no instance of \<^verbatim>\<open>Error\<close>, whatever it holds. The wording of
  the engine's own errors is not fixed by the language: it is a parameter
  (\<open>engine_message\<close> below) of the kind of fault and of the name involved.
\<close>

datatype fault =
    ReadOfUndefined jstring
  | ReadOfNull jstring
  | NotAFunction jstring
  | DestructureNullish jstring
  | NotPrimitive
  | ControllerClosed
  | MalformedURI

datatype thrown =
    EngineError fault
  | ErrorObj jstring
  | NonError "json option"

text \<open>Results in sequence: the first throw ends the evaluation.\<close>

fun sequence :: "(thrown + 'a) list \<Rightarrow> thrown + 'a list" where
  "sequence [] = Inr []"
| "sequence (r # rs) =
     (case r of
        Inl e \<Rightarrow> Inl e
      | Inr x \<Rightarrow> (case sequence rs of Inl e \<Rightarrow> Inl e | Inr xs \<Rightarrow> Inr (x # xs)))"

section \<open>The stream framer\<close>

text \<open>
  The \<^verbatim>\<open>ReadableStreamDefaultController\<close>: the chunks enqueued so far and whether
  \<^verbatim>\<open>close()\<close> was called. Both \<^verbatim>\<open>enqueue\<close> and \<^verbatim>\<open>close\<close> throw a
  \<^verbatim>\<open>TypeError\<close> once the controller is closed.
\<close>

record controller =
  queue :: "byte list list"
  closed :: bool

definition new_controller :: controller where
  "new_controller = \<lparr>queue = [], closed = False\<rparr>"

definition enqueue :: "controller \<Rightarrow> byte list \<Rightarrow> thrown + controller" where
  "enqueue c chunk =
     (if closed c then Inl (EngineError ControllerClosed)
      else Inr (c\<lparr>queue := queue c @ [chunk]\<rparr>))"

definition close :: "controller \<Rightarrow> thrown + controller" where
  "close c = (if closed c then Inl (EngineError ControllerClosed) else Inr (c\<lparr>closed := True\<rparr>))"

text \<open>Lines 94 to 99: the loop over the lines, from index \<open>i\<close> on.\<close>

definition content_of :: "jstring list \<Rightarrow> nat \<Rightarrow> jstring" where
  "content_of lines i = (if i < length lines - 1 then lines ! i @ [0x0A] else lines ! i)"

definition content_record :: "jstring \<Rightarrow> jstring" where
  "content_record content = ascii ''0:'' @ JSON_stringify (JStr content) @ [0x0A]"

function emit_lines :: "jstring list \<Rightarrow> nat \<Rightarrow> controller \<Rightarrow> thrown + controller" where
  "emit_lines lines i c =
     (if i < length lines then
        (case enqueue c (TextEncoder_encode (content_record (content_of lines i))) of
           Inl e \<Rightarrow> Inl e
         | Inr c' \<Rightarrow> emit_lines lines (i + 1) c')
      else Inr c)"
  by pat_completeness auto
termination
  by (relation "measure (\<lambda>(lines, i, c). length lines - i)") auto

declare emit_lines.simps [simp del]

text \<open>Lines 102 to 112: the two trailer payloads.\<close>

definition finish_event :: "jstring \<Rightarrow> json" where
  "finish_event message =
     JObj [(ascii ''finishReason'', JStr (ascii ''stop'')),
           (ascii ''usage'',
            JObj [(ascii ''promptTokens'', JNum 10),
                  (ascii ''completionTokens'', JNum (int (length message)))]),
           (ascii ''isContinued'', JBool False)]"

definition done_event :: "jstring \<Rightarrow> json" where
  "done_event message =
     JObj [(ascii ''finishReason'', JStr (ascii ''stop'')),
           (ascii ''usage'',
            JObj [(ascii ''promptTokens'', JNum 10),
                  (ascii ''completionTokens'', JNum (int (length message)))])]"

definition finish_record :: "jstring \<Rightarrow> jstring" where
  "finish_record message = ascii ''e:'' @ JSON_stringify (finish_event message) @ [0x0A]"

definition done_record :: "jstring \<Rightarrow> jstring" where
  "done_record message = ascii ''d:'' @ JSON_stringify (done_event message) @ [0x0A]"

text \<open>Lines 89 to 116: \<^verbatim>\<open>start(controller)\<close>.\<close>

definition start :: "jstring \<Rightarrow> controller \<Rightarrow> thrown + controller" where
  "start message c =
     (case emit_lines (split_on 0x0A message) 0 c of
        Inl e \<Rightarrow> Inl e
      | Inr c1 \<Rightarrow>
          (case enqueue c1 (TextEncoder_encode (finish_record message)) of
             Inl e \<Rightarrow> Inl e
           | Inr c2 \<Rightarrow>
               (case enqueue c2 (TextEncoder_encode (done_record message)) of
                  Inl e \<Rightarrow> Inl e
                | Inr c3 \<Rightarrow> close c3)))"

section \<open>The world outside the handler\<close>

text \<open>
  What the handler reads from its environment and what its collaborators answer. A response
  of \<^verbatim>\<open>fetch\<close> carries its status and what reading its body gives: \<open>body_buffer\<close> for
  lines 32 to 34 (\<^verbatim>\<open>blob()\<close>, \<^verbatim>\<open>arrayBuffer()\<close>, \<^verbatim>\<open>Buffer.from\<close>), \<open>body_json\<close> for
  \<^verbatim>\<open>json()\<close>. Two conversions of the engine are floating point and are parameters:
  \<open>string_gt_zero s\<close> is the comparison \<^verbatim>\<open>s > 0\<close> of a string with a number, and
  \<open>unsafe_number_text n\<close> is what the engine prints for an integer beyond the safe range
  (the shortest digits of the nearest double, or exponent notation).
\<close>

datatype http_method = GET | POST_method

record http_response =
  status :: nat
  body_buffer :: "thrown + byte list"
  body_json :: "thrown + json"

definition ok :: "http_response \<Rightarrow> bool" where
  "ok r = (200 \<le> status r \<and> status r \<le> 299)"

record put_object =
  Bucket :: "jstring option"
  Key :: jstring
  Body :: "byte list"
  ContentType :: jstring

record env =
  S3_BUCKET_NAME :: "jstring option"
  YOLO_SERVICE :: "jstring option"
  Date_now :: nat
  fetch :: "json option \<Rightarrow> http_method \<Rightarrow> thrown + http_response"
  s3_send :: "put_object \<Rightarrow> thrown + unit"
  string_gt_zero :: "jstring \<Rightarrow> bool"
  unsafe_number_text :: "int \<Rightarrow> jstring"
  engine_message :: "fault \<Rightarrow> jstring"

section \<open>Reading JSON values\<close>

text \<open>
  \<open>member v p\<close> is \<^verbatim>\<open>v.p\<close> for a value \<open>v\<close> that is neither \<^verbatim>\<open>null\<close> nor
  \<^verbatim>\<open>undefined\<close> and for the property names the handler reads by name (\<^verbatim>\<open>messages\<close>,
  \<^verbatim>\<open>selectedModel\<close>, \<^verbatim>\<open>data\<close>, \<^verbatim>\<open>images\<close>, \<^verbatim>\<open>detection_count\<close>, \<^verbatim>\<open>labels\<close>,
  \<^verbatim>\<open>prediction_uid\<close>): no array, string, number, boolean or prototype has a property
  of one of these names, so only an object's own property can answer.
\<close>

definition member :: "json \<Rightarrow> jstring \<Rightarrow> json option" where
  "member v p = (case v of JObj fs \<Rightarrow> map_of fs p | _ \<Rightarrow> None)"

text \<open>\<^verbatim>\<open>v.p\<close> for a parsed value \<open>v\<close>: reading a property of \<^verbatim>\<open>null\<close> throws.\<close>

definition read_prop :: "json \<Rightarrow> jstring \<Rightarrow> thrown + json option" where
  "read_prop v p =
     (case v of
        JNull \<Rightarrow> Inl (EngineError (ReadOfNull p))
      | _ \<Rightarrow> Inr (member v p))"

definition number_text :: "env \<Rightarrow> int \<Rightarrow> jstring" where
  "number_text env n =
     (if - 9007199254740991 \<le> n \<and> n \<le> 9007199254740991 then ascii (show_int n)
      else unsafe_number_text env n)"

text \<open>
  \<^verbatim>\<open>ToString\<close>, as a template literal and \<^verbatim>\<open>join\<close> apply it. An array is joined with
  commas, \<^verbatim>\<open>null\<close> elements giving the empty string. A plain object answers through
  its \<^verbatim>\<open>toString\<close>: the inherited one gives \<open>[object Object]\<close>, but an own property of
  that name (a parsed value, never a function) hides it, and the conversion throws.
\<close>

fun to_string :: "env \<Rightarrow> json \<Rightarrow> thrown + jstring" where
  "to_string env JNull = Inr (ascii ''null'')"
| "to_string env (JBool b) = Inr (ascii (if b then ''true'' else ''false''))"
| "to_string env (JNum n) = Inr (number_text env n)"
| "to_string env (JStr s) = Inr s"
| "to_string env (JArr xs) =
     (case sequence (map (\<lambda>x. case x of JNull \<Rightarrow> Inr [] | _ \<Rightarrow> to_string env x) xs) of
        Inl e \<Rightarrow> Inl e
      | Inr ss \<Rightarrow> Inr (join (ascii '','') ss))"
| "to_string env (JObj fs) =
     (if map_of fs (ascii ''toString'') \<noteq> None then Inl (EngineError NotPrimitive)
      else Inr (ascii ''[object Object]''))"

definition element_string :: "env \<Rightarrow> json \<Rightarrow> thrown + jstring" where
  "element_string env x = (case x of JNull \<Rightarrow> Inr [] | _ \<Rightarrow> to_string env x)"

definition template_string :: "env \<Rightarrow> json option \<Rightarrow> thrown + jstring" where
  "template_string env v = (case v of None \<Rightarrow> Inr (ascii ''undefined'') | Some w \<Rightarrow> to_string env w)"

definition truthy :: "json \<Rightarrow> bool" where
  "truthy v =
     (case v of
        JNull \<Rightarrow> False
      | JBool b \<Rightarrow> b
      | JNum n \<Rightarrow> n \<noteq> 0
      | JStr s \<Rightarrow> s \<noteq> []
      | _ \<Rightarrow> True)"

text \<open>\<^verbatim>\<open>v.length\<close> and \<^verbatim>\<open>v[0]\<close> of a truthy value.\<close>

definition length_of :: "json \<Rightarrow> json option" where
  "length_of v =
     (case v of
        JArr xs \<Rightarrow> Some (JNum (int (length xs)))
      | JStr s \<Rightarrow> Some (JNum (int (length s)))
      | JObj fs \<Rightarrow> map_of fs (ascii ''length'')
      | _ \<Rightarrow> None)"

definition first_element :: "json \<Rightarrow> json option" where
  "first_element v =
     (case v of
        JArr xs \<Rightarrow> (case xs of [] \<Rightarrow> None | x # _ \<Rightarrow> Some x)
      | JStr s \<Rightarrow> (case s of [] \<Rightarrow> None | u # _ \<Rightarrow> Some (JStr [u]))
      | JObj fs \<Rightarrow> map_of fs (ascii ''0'')
      | _ \<Rightarrow> None)"

text \<open>
  \<^verbatim>\<open>v > 0\<close>. \<^verbatim>\<open>undefined\<close> and a plain object with the inherited \<^verbatim>\<open>toString\<close>
  become \<^verbatim>\<open>NaN\<close>, \<^verbatim>\<open>null\<close> becomes 0. An array is first turned into a string, which
  may throw; a plain object with an own \<^verbatim>\<open>toString\<close> property has no primitive value,
  and the comparison throws.
\<close>

definition greater_than_zero :: "env \<Rightarrow> json option \<Rightarrow> thrown + bool" where
  "greater_than_zero env v =
     (case v of
        None \<Rightarrow> Inr False
      | Some JNull \<Rightarrow> Inr False
      | Some (JBool b) \<Rightarrow> Inr b
      | Some (JNum n) \<Rightarrow> Inr (0 < n)
      | Some (JStr s) \<Rightarrow> Inr (string_gt_zero env s)
      | Some (JArr xs) \<Rightarrow>
          (case to_string env (JArr xs) of
             Inl e \<Rightarrow> Inl e
           | Inr s \<Rightarrow> Inr (string_gt_zero env s))
      | Some (JObj fs) \<Rightarrow>
          (if map_of fs (ascii ''toString'') \<noteq> None then Inl (EngineError NotPrimitive)
           else Inr False))"

subsection \<open>\<^verbatim>\<open>encodeURIComponent\<close>\<close>

definition uri_unreserved :: "nat \<Rightarrow> bool" where
  "uri_unreserved cp =
     ((0x41 \<le> cp \<and> cp \<le> 0x5A) \<or> (0x61 \<le> cp \<and> cp \<le> 0x7A) \<or> (0x30 \<le> cp \<and> cp \<le> 0x39) \<or>
      cp \<in> {0x2D, 0x5F, 0x2E, 0x21, 0x7E, 0x2A, 0x27, 0x28, 0x29})"

definition upper_hex_digit :: "nat \<Rightarrow> code_unit" where
  "upper_hex_digit d = of_nat (if d < 10 then 48 + d else 55 + d)"

definition percent_byte :: "byte \<Rightarrow> jstring" where
  "percent_byte b = [0x25, upper_hex_digit (unat b div 16), upper_hex_digit (unat b mod 16)]"

definition encode_code_point :: "nat \<Rightarrow> jstring" where
  "encode_code_point cp =
     (if uri_unreserved cp then [of_nat cp] else concat (map percent_byte (utf8_bytes cp)))"

definition encodeURIComponent :: "jstring \<Rightarrow> thrown + jstring" where
  "encodeURIComponent s =
     (if list_ex (\<lambda>cp. 0xD800 \<le> cp \<and> cp \<le> 0xDFFF) (code_points s)
      then Inl (EngineError MalformedURI)
      else Inr (concat (map encode_code_point (code_points s))))"

section \<open>The handler\<close>

subsection \<open>Lines 13 to 19: parsing and cleaning\<close>

definition destructure_body :: "json \<Rightarrow> thrown + json option \<times> json option \<times> json option" where
  "destructure_body body =
     (case body of
        JNull \<Rightarrow> Inl (EngineError (DestructureNullish (ascii ''messages'')))
      | _ \<Rightarrow> Inr (member body (ascii ''messages''), member body (ascii ''selectedModel''),
                  member body (ascii ''data'')))"

text \<open>
  The arrow function of line 16: the rest pattern copies every own enumerable property
  but \<^verbatim>\<open>experimental_attachments\<close>. Destructuring \<^verbatim>\<open>null\<close> throws; an array or a
  string has its indices as properties, a number or a boolean has none.
\<close>

definition without_attachments :: "(jstring \<times> json) list \<Rightarrow> (jstring \<times> json) list" where
  "without_attachments fs = filter (\<lambda>kv. fst kv \<noteq> ascii ''experimental_attachments'') fs"

definition index_keys :: "nat \<Rightarrow> jstring list" where
  "index_keys n = map (\<lambda>i. ascii (show_nat i)) [0..<n]"

fun clean_message :: "json \<Rightarrow> thrown + json" where
  "clean_message JNull = Inl (EngineError (DestructureNullish (ascii ''experimental_attachments'')))"
| "clean_message (JObj fs) = Inr (JObj (without_attachments fs))"
| "clean_message (JArr xs) = Inr (JObj (zip (index_keys (length xs)) xs))"
| "clean_message (JStr s) = Inr (JObj (zip (index_keys (length s)) (map (\<lambda>u. JStr [u]) s)))"
| "clean_message (JBool b) = Inr (JObj [])"
| "clean_message (JNum n) = Inr (JObj [])"

text \<open>\<^verbatim>\<open>Array.prototype.map\<close> with that function: the first throw ends the loop.\<close>

fun map_clean :: "json list \<Rightarrow> thrown + json list" where
  "map_clean [] = Inr []"
| "map_clean (m # ms) =
     (case clean_message m of
        Inl e \<Rightarrow> Inl e
      | Inr c \<Rightarrow> (case map_clean ms of Inl e \<Rightarrow> Inl e | Inr cs \<Rightarrow> Inr (c # cs)))"

text \<open>
  \<^verbatim>\<open>messages.map(...)\<close>: reading \<^verbatim>\<open>map\<close> of \<^verbatim>\<open>undefined\<close> or \<^verbatim>\<open>null\<close> throws, and
  only an array has a function there.
\<close>

definition cleanedMessages :: "json option \<Rightarrow> thrown + json list" where
  "cleanedMessages messages =
     (case messages of
        None \<Rightarrow> Inl (EngineError (ReadOfUndefined (ascii ''map'')))
      | Some JNull \<Rightarrow> Inl (EngineError (ReadOfNull (ascii ''map'')))
      | Some (JArr ms) \<Rightarrow> map_clean ms
      | Some _ \<Rightarrow> Inl (EngineError (NotAFunction (ascii ''messages.map''))))"

subsection \<open>Lines 27 to 63: from the image reference to the prediction\<close>

definition fileKey :: "env \<Rightarrow> jstring" where
  "fileKey env = ascii ''uploads/'' @ ascii (show_nat (Date_now env)) @ ascii ''-image.jpeg''"

text \<open>The key as \<^verbatim>\<open>encodeURIComponent\<close> writes it: only the slash is escaped.\<close>

definition encoded_fileKey :: "env \<Rightarrow> jstring" where
  "encoded_fileKey env =
     ascii ''uploads%2F'' @ ascii (show_nat (Date_now env)) @ ascii ''-image.jpeg''"

definition predict_url :: "env \<Rightarrow> jstring \<Rightarrow> jstring" where
  "predict_url env encoded_key =
     ascii ''http://'' @
     (case YOLO_SERVICE env of None \<Rightarrow> ascii ''undefined'' | Some address \<Rightarrow> address) @
     ascii ''/predict?img='' @ encoded_key"

definition obtain_prediction :: "env \<Rightarrow> json \<Rightarrow> thrown + json" where
  "obtain_prediction env images =
     (case fetch env (first_element images) GET of
        Inl e \<Rightarrow> Inl e
      | Inr response \<Rightarrow>
     (case body_buffer response of
        Inl e \<Rightarrow> Inl e
      | Inr buffer \<Rightarrow>
     (case s3_send env \<lparr>Bucket = S3_BUCKET_NAME env, Key = fileKey env, Body = buffer,
                         ContentType = ascii ''image/jpeg''\<rparr> of
        Inl e \<Rightarrow> Inl e
      | Inr _ \<Rightarrow>
     (case encodeURIComponent (fileKey env) of
        Inl e \<Rightarrow> Inl e
      | Inr encoded_key \<Rightarrow>
     (case fetch env (Some (JStr (predict_url env encoded_key))) POST_method of
        Inl e \<Rightarrow> Inl e
      | Inr predictionResponse \<Rightarrow>
          if \<not> ok predictionResponse
          then Inl (ErrorObj (ascii ''Prediction API error: '' @
                              ascii (show_nat (status predictionResponse))))
          else body_json predictionResponse)))))"

subsection \<open>Lines 66 to 72: the success message\<close>

text \<open>\<^verbatim>\<open>predictionResult.labels.join(', ')\<close>, given \<^verbatim>\<open>predictionResult.labels\<close>.\<close>

definition join_labels :: "env \<Rightarrow> json option \<Rightarrow> thrown + jstring" where
  "join_labels env labels =
     (case labels of
        None \<Rightarrow> Inl (EngineError (ReadOfUndefined (ascii ''join'')))
      | Some JNull \<Rightarrow> Inl (EngineError (ReadOfNull (ascii ''join'')))
      | Some (JArr xs) \<Rightarrow>
          (case sequence (map (element_string env) xs) of
             Inl e \<Rightarrow> Inl e
           | Inr ss \<Rightarrow> Inr (join (ascii '', '') ss))
      | Some _ \<Rightarrow> Inl (EngineError (NotAFunction (ascii ''predictionResult.labels.join''))))"

definition success_message :: "jstring \<Rightarrow> jstring \<Rightarrow> jstring \<Rightarrow> jstring" where
  "success_message count labels uid =
     [0xD83D, 0xDD0D] @ ascii '' **Object Detection Results**'' @ [0x0A, 0x0A] @
     ascii ''**Detection Count:** '' @ count @ [0x0A] @
     ascii ''**Detected Objects:** '' @ labels @ [0x0A] @
     ascii ''**Prediction ID:** '' @ uid @ [0x0A, 0x0A] @
     ascii ''I'' @ [0x27] @ ascii ''ve analyzed your image and detected '' @ count @
     ascii '' object(s). The detected objects include: '' @ labels @ ascii ''.''"

text \<open>
  The template reads and converts \<^verbatim>\<open>detection_count\<close>, \<^verbatim>\<open>labels\<close> (joined) and
  \<^verbatim>\<open>prediction_uid\<close> in this order, and then the first two again; the reads and
  conversions have no effect, so the second ones give the same strings.
\<close>

definition format_result :: "env \<Rightarrow> json \<Rightarrow> thrown + jstring" where
  "format_result env predictionResult =
     (case read_prop predictionResult (ascii ''detection_count'') of
        Inl e \<Rightarrow> Inl e
      | Inr count \<Rightarrow>
     (case template_string env count of
        Inl e \<Rightarrow> Inl e
      | Inr count_text \<Rightarrow>
     (case read_prop predictionResult (ascii ''labels'') of
        Inl e \<Rightarrow> Inl e
      | Inr labels \<Rightarrow>
     (case join_labels env labels of
        Inl e \<Rightarrow> Inl e
      | Inr joined \<Rightarrow>
     (case read_prop predictionResult (ascii ''prediction_uid'') of
        Inl e \<Rightarrow> Inl e
      | Inr uid \<Rightarrow>
     (case template_string env uid of
        Inl e \<Rightarrow> Inl e
      | Inr uid_text \<Rightarrow> Inr (success_message count_text joined uid_text)))))))"

definition try_body :: "env \<Rightarrow> json \<Rightarrow> thrown + jstring" where
  "try_body env images =
     (case obtain_prediction env images of
        Inl e \<Rightarrow> Inl e
      | Inr predictionResult \<Rightarrow> format_result env predictionResult)"

subsection \<open>Lines 74 to 82: the catch block\<close>

text \<open>
  \<^verbatim>\<open>error instanceof Error ? error.message : 'Unknown error'\<close>. (The call of
  \<^verbatim>\<open>console.error\<close> before it writes to the log only.)
\<close>

definition error_text :: "env \<Rightarrow> thrown \<Rightarrow> jstring" where
  "error_text env e =
     (case e of
        EngineError f \<Rightarrow> engine_message env f
      | ErrorObj m \<Rightarrow> m
      | NonError v \<Rightarrow> ascii ''Unknown error'')"

definition error_header :: jstring where
  "error_header =
     [0x274C] @ ascii '' **Object Detection Error**'' @ [0x0A, 0x0A] @
     ascii ''Sorry, I encountered an error while processing your image: ''"

definition availability_hint :: jstring where
  "availability_hint =
     [0x0A, 0x0A] @
     ascii ''Please make sure the object detection service is running on localhost:8080.''"

definition catch_block :: "env \<Rightarrow> thrown \<Rightarrow> thrown + jstring" where
  "catch_block env e = Inr (error_header @ error_text env e @ availability_hint)"

definition detection_pipeline :: "env \<Rightarrow> json \<Rightarrow> thrown + jstring" where
  "detection_pipeline env images =
     (case try_body env images of
        Inl e \<Rightarrow> catch_block env e
      | Inr message \<Rightarrow> Inr message)"

subsection \<open>Lines 22 to 83: the response message\<close>

definition default_prompt :: jstring where
  "default_prompt = ascii ''Please provide an image for object detection.''"

text \<open>\<^verbatim>\<open>data?.images\<close>.\<close>

definition optional_images :: "json option \<Rightarrow> json option" where
  "optional_images data =
     (case data of None \<Rightarrow> None | Some JNull \<Rightarrow> None | Some d \<Rightarrow> member d (ascii ''images''))"

text \<open>
  Line 25 is outside the \<^verbatim>\<open>try\<close> block: a throw of its comparison leaves the handler.
\<close>

definition response_message :: "env \<Rightarrow> json option \<Rightarrow> thrown + jstring" where
  "response_message env data =
     (case optional_images data of
        None \<Rightarrow> Inr default_prompt
      | Some images \<Rightarrow>
          if truthy images then
            (case greater_than_zero env (length_of images) of
               Inl e \<Rightarrow> Inl e
             | Inr positive \<Rightarrow>
                 if positive then detection_pipeline env images else Inr default_prompt)
          else Inr default_prompt)"

subsection \<open>Lines 11 to 125: the handler\<close>

record response =
  stream :: controller
  headers :: "(string \<times> string) list"

definition POST :: "env \<Rightarrow> json \<Rightarrow> thrown + response" where
  "POST env body =
     (case destructure_body body of
        Inl e \<Rightarrow> Inl e
      | Inr (messages, selectedModel, data) \<Rightarrow>
     (case cleanedMessages messages of
        Inl e \<Rightarrow> Inl e
      | Inr cleaned \<Rightarrow>
     (case response_message env data of
        Inl e \<Rightarrow> Inl e
      | Inr message \<Rightarrow>
     (case start message new_controller of
        Inl e \<Rightarrow> Inl e
      | Inr c \<Rightarrow>
          Inr \<lparr>stream = c,
               headers = [(''Content-Type'', ''text/plain; charset=utf-8''),
                          (''X-Vercel-AI-Data-Stream'', ''v1'')]\<rparr>))))"

section \<open>The reader of the stream\<close>

text \<open>
  The claims about the stream speak of what its reader gets back: the chunks decoded from
  UTF-8, the payload of a record \<open>tag:payload\<close> ended by a line feed, and the string a
  JSON string literal denotes. These are the standard decoders, not code of the handler.
\<close>

subsection \<open>JSON string literals\<close>

definition hex_value :: "code_unit \<Rightarrow> nat option" where
  "hex_value c =
     (if 0x30 \<le> c \<and> c \<le> 0x39 then Some (unat c - 0x30)
      else if 0x61 \<le> c \<and> c \<le> 0x66 then Some (unat c - 0x57)
      else if 0x41 \<le> c \<and> c \<le> 0x46 then Some (unat c - 0x37)
      else None)"

definition simple_escape :: "code_unit \<Rightarrow> code_unit option" where
  "simple_escape e =
     (if e = 0x22 then Some 0x22
      else if e = 0x5C then Some 0x5C
      else if e = 0x2F then Some 0x2F
      else if e = 0x62 then Some 0x08
      else if e = 0x66 then Some 0x0C
      else if e = 0x6E then Some 0x0A
      else if e = 0x72 then Some 0x0D
      else if e = 0x74 then Some 0x09
      else None)"

definition hex4 :: "code_unit \<Rightarrow> code_unit \<Rightarrow> code_unit \<Rightarrow> code_unit \<Rightarrow> code_unit option" where
  "hex4 h1 h2 h3 h4 =
     (case (hex_value h1, hex_value h2, hex_value h3, hex_value h4) of
        (Some a, Some b, Some c, Some d) \<Rightarrow> Some (of_nat (((a * 16 + b) * 16 + c) * 16 + d))
      | _ \<Rightarrow> None)"

text \<open>The characters after the opening quote, up to the closing quote that ends the text.\<close>

function unquote_units :: "jstring \<Rightarrow> jstring option" where
  "unquote_units [] = None"
| "unquote_units (c # cs) =
     (if c = 0x22 then (if cs = [] then Some [] else None)
      else if c = 0x5C then
        (case cs of
           [] \<Rightarrow> None
         | e # rest \<Rightarrow>
             if e = 0x75 then
               (case rest of
                  h1 # h2 # h3 # h4 # rest' \<Rightarrow>
                    (case hex4 h1 h2 h3 h4 of
                       None \<Rightarrow> None
                     | Some u \<Rightarrow> map_option ((#) u) (unquote_units rest'))
                | _ \<Rightarrow> None)
             else
               (case simple_escape e of
                  None \<Rightarrow> None
                | Some u \<Rightarrow> map_option ((#) u) (unquote_units rest)))
      else if c < 0x20 then None
      else map_option ((#) c) (unquote_units cs))"
  by pat_completeness auto
termination
  by (relation "measure length") auto

definition JSON_parse_string :: "jstring \<Rightarrow> jstring option" where
  "JSON_parse_string t =
     (case t of [] \<Rightarrow> None | q # rest \<Rightarrow> if q = 0x22 then unquote_units rest else None)"

subsection \<open>UTF-8\<close>

definition is_continuation :: "byte \<Rightarrow> bool" where
  "is_continuation b = (0x80 \<le> b \<and> b \<le> 0xBF)"

definition continuation_bits :: "byte \<Rightarrow> nat" where
  "continuation_bits b = unat b - 0x80"

function utf8_decode :: "byte list \<Rightarrow> nat list option" where
  "utf8_decode [] = Some []"
| "utf8_decode (b # bs) =
     (if b < 0x80 then map_option ((#) (unat b)) (utf8_decode bs)
      else if 0xC0 \<le> b \<and> b < 0xE0 then
        (case bs of
           b1 # rest \<Rightarrow>
             if is_continuation b1
             then map_option ((#) ((unat b - 0xC0) * 64 + continuation_bits b1)) (utf8_decode rest)
             else None
         | _ \<Rightarrow> None)
      else if 0xE0 \<le> b \<and> b < 0xF0 then
        (case bs of
           b1 # b2 # rest \<Rightarrow>
             if is_continuation b1 \<and> is_continuation b2
             then map_option
                    ((#) ((unat b - 0xE0) * 4096 + continuation_bits b1 * 64 + continuation_bits b2))
                    (utf8_decode rest)
             else None
         | _ \<Rightarrow> None)
      else if 0xF0 \<le> b \<and> b < 0xF8 then
        (case bs of
           b1 # b2 # b3 # rest \<Rightarrow>
             if is_continuation b1 \<and> is_continuation b2 \<and> is_continuation b3
             then map_option
                    ((#) ((unat b - 0xF0) * 262144 + continuation_bits b1 * 4096 +
                          continuation_bits b2 * 64 + continuation_bits b3))
                    (utf8_decode rest)
             else None
         | _ \<Rightarrow> None)
      else None)"
  by pat_completeness auto
termination
  by (relation "measure length") auto

definition unit_of :: "nat \<Rightarrow> code_unit" where
  "unit_of n = of_nat n"

definition units_of_code_point :: "nat \<Rightarrow> jstring" where
  "units_of_code_point cp =
     (if cp < 0x10000 then [unit_of cp]
      else [unit_of (0xD800 + (cp - 0x10000) div 0x400), unit_of (0xDC00 + (cp - 0x10000) mod 0x400)])"

definition TextDecoder_decode :: "byte list \<Rightarrow> jstring option" where
  "TextDecoder_decode bs = map_option (\<lambda>cps. concat (map units_of_code_point cps)) (utf8_decode bs)"

definition plain_code_point :: "nat \<Rightarrow> bool" where
  "plain_code_point cp = (cp < 0x110000 \<and> \<not> (0xD800 \<le> cp \<and> cp \<le> 0xDFFF))"

subsection \<open>Records\<close>

definition frame_payload :: "code_unit \<Rightarrow> jstring \<Rightarrow> jstring option" where
  "frame_payload tag r =
     (case r of
        t # c # rest \<Rightarrow>
          if t = tag \<and> c = 0x3A \<and> rest \<noteq> [] \<and> last rest = 0x0A then Some (butlast rest) else None
      | _ \<Rightarrow> None)"

text \<open>A chunk is a content record when it starts with the two bytes \<open>0:\<close>.\<close>

definition is_content_chunk :: "byte list \<Rightarrow> bool" where
  "is_content_chunk chunk = (take 2 chunk = [0x30, 0x3A])"

definition read_content_chunk :: "byte list \<Rightarrow> jstring option" where
  "read_content_chunk chunk =
     (case TextDecoder_decode chunk of
        None \<Rightarrow> None
      | Some r \<Rightarrow> (case frame_payload 0x30 r of None \<Rightarrow> None | Some p \<Rightarrow> JSON_parse_string p))"

text \<open>The contents the loop of lines 94 to 99 sends, as a list.\<close>

definition line_contents :: "jstring \<Rightarrow> jstring list" where
  "line_contents message =
     map (\<lambda>l. l @ [0x0A]) (butlast (split_on 0x0A message)) @ [last (split_on 0x0A message)]"

section \<open>Concrete requests and environments\<close>

text \<open>
  An environment in which every collaborator fails. (In the environments of this section
  the only integer beyond the safe range is \<open>2^60\<close>, which the engine prints as
  \<open>1152921504606847000\<close>.)
\<close>

definition offline_env :: env where
  "offline_env =
     \<lparr>S3_BUCKET_NAME = None, YOLO_SERVICE = None, Date_now = 0,
      fetch = (\<lambda>input method. Inl (ErrorObj (ascii ''fetch failed''))),
      s3_send = (\<lambda>command. Inl (ErrorObj (ascii ''no bucket''))),
      string_gt_zero = (\<lambda>s. False),
      unsafe_number_text = (\<lambda>n. ascii ''1152921504606847000''),
      engine_message = (\<lambda>f. ascii ''engine error'')\<rparr>"

text \<open>
  An environment in which the image is fetched and stored, and the detection service
  answers with the given status and JSON body.
\<close>

definition service_env :: "nat \<Rightarrow> json \<Rightarrow> env" where
  "service_env code result =
     \<lparr>S3_BUCKET_NAME = Some (ascii ''bucket''), YOLO_SERVICE = Some (ascii ''yolo:8080''),
      Date_now = 1700000000000,
      fetch = (\<lambda>input method.
                 case method of
                   GET \<Rightarrow> Inr \<lparr>status = 200, body_buffer = Inr [0xFF, 0xD8],
                               body_json = Inl (ErrorObj (ascii ''not JSON''))\<rparr>
                 | POST_method \<Rightarrow> Inr \<lparr>status = code, body_buffer = Inr [],
                                       body_json = Inr result\<rparr>),
      s3_send = (\<lambda>command. Inr ()),
      string_gt_zero = (\<lambda>s. False),
      unsafe_number_text = (\<lambda>n. ascii ''1152921504606847000''),
      engine_message = (\<lambda>f. ascii ''engine error'')\<rparr>"

definition one_image :: json where
  "one_image = JArr [JStr (ascii ''http://x/img.jpg'')]"

definition two_detections :: json where
  "two_detections =
     JObj [(ascii ''detection_count'', JNum 2),
           (ascii ''labels'', JArr [JStr (ascii ''cat''), JStr (ascii ''dog'')]),
           (ascii ''prediction_uid'', JStr (ascii ''abc123''))]"

text \<open>An environment in which fetching the image throws the given value.\<close>

definition failing_env :: "thrown \<Rightarrow> env" where
  "failing_env e = offline_env\<lparr>fetch := (\<lambda>input method. Inl e)\<rparr>"

text \<open>A detection result whose count is \<open>2^60\<close>.\<close>

definition huge_count :: json where
  "huge_count =
     JObj [(ascii ''detection_count'', JNum 1152921504606846976),
           (ascii ''labels'', JArr [JStr (ascii ''cat'')]),
           (ascii ''prediction_uid'', JStr (ascii ''abc123''))]"

text \<open>\<open>contains p s\<close>: the string \<open>p\<close> occurs in the string \<open>s\<close>.\<close>

fun starts_with :: "jstring \<Rightarrow> jstring \<Rightarrow> bool" where
  "starts_with [] s = True"
| "starts_with (p # ps) [] = False"
| "starts_with (p # ps) (x # xs) = (p = x \<and> starts_with ps xs)"

fun contains :: "jstring \<Rightarrow> jstring \<Rightarrow> bool" where
  "contains p [] = (p = [])"
| "contains p (x # xs) = (starts_with p (x # xs) \<or> contains p xs)"

section \<open>Lemmas: lines, JSON strings and UTF-8\<close>

lemma split_on_nonempty: "split_on d xs \<noteq> []"
  by (induction xs) auto

lemma emit_lines_run:
  "\<not> closed c \<Longrightarrow> i \<le> length ls \<Longrightarrow>
   emit_lines ls i c =
     Inr (c\<lparr>queue := queue c @ map (\<lambda>j. TextEncoder_encode (content_record (content_of ls j))) [i..<length ls]\<rparr>)"
proof (induction ls i c rule: emit_lines.induct)
  case (1 lines i c)
  show ?case
  proof (cases "i < length lines")
    case True
    let ?c' = "c\<lparr>queue := queue c @ [TextEncoder_encode (content_record (content_of lines i))]\<rparr>"
    have e: "enqueue c (TextEncoder_encode (content_record (content_of lines i))) = Inr ?c'"
      using "1.prems" by (simp add: enqueue_def)
    have "emit_lines lines i c = emit_lines lines (i + 1) ?c'"
      using True e by (subst emit_lines.simps) simp
    also have "\<dots> = Inr (?c'\<lparr>queue := queue ?c' @ map (\<lambda>j. TextEncoder_encode (content_record (content_of lines j))) [i + 1..<length lines]\<rparr>)"
      using "1.IH"[OF True e] "1.prems" True by simp
    finally show ?thesis using True by (simp add: upt_conv_Cons)
  next
    case False
    then show ?thesis using "1.prems" by (subst emit_lines.simps) simp
  qed
qed

lemma content_list:
  assumes "ls \<noteq> []"
  shows "map (content_of ls) [0..<length ls] = map (\<lambda>l. l @ [0x0A]) (butlast ls) @ [last ls]"
proof (rule nth_equalityI)
  show "length (map (content_of ls) [0..<length ls]) = length (map (\<lambda>l. l @ [0x0A]) (butlast ls) @ [last ls])"
    using assms by simp
next
  fix i
  assume "i < length (map (content_of ls) [0..<length ls])"
  then have i: "i < length ls" by simp
  show "map (content_of ls) [0..<length ls] ! i = (map (\<lambda>l. l @ [0x0A]) (butlast ls) @ [last ls]) ! i"
  proof (cases "i < length ls - 1")
    case True
    then show ?thesis using i by (simp add: content_of_def nth_append nth_butlast)
  next
    case False
    then have "i = length ls - 1" using i by arith
    then show ?thesis using i assms by (simp add: content_of_def nth_append last_conv_nth)
  qed
qed

lemma concat_contents:
  "concat (map (\<lambda>l. l @ [d]) (butlast (split_on d xs)) @ [last (split_on d xs)]) = xs"
proof (induction xs)
  case Nil
  show ?case by simp
next
  case (Cons x xs)
  obtain l ls where s: "split_on d xs = l # ls"
    using split_on_nonempty [of d xs] by (cases "split_on d xs") auto
  show ?case using Cons s by (cases ls) auto
qed

lemma hex_value_digit:
  assumes "d < 16"
  shows "hex_value (hex_digit d) = Some d"
proof -
  have "d = 0 \<or> d = 1 \<or> d = 2 \<or> d = 3 \<or> d = 4 \<or> d = 5 \<or> d = 6 \<or> d = 7 \<or> d = 8 \<or> d = 9
      \<or> d = 10 \<or> d = 11 \<or> d = 12 \<or> d = 13 \<or> d = 14 \<or> d = 15"
    using assms by arith
  then show ?thesis
    by (elim disjE) (simp_all add: hex_value_def hex_digit_def)
qed

lemma hex_sum:
  "((n div 4096 * 16 + n div 256 mod 16) * 16 + n div 16 mod 16) * 16 + n mod 16 = (n::nat)"
proof -
  have a: "n div 4096 = n div 256 div 16" by (simp add: div_mult2_eq [symmetric])
  have b: "n div 256 = n div 16 div 16" by (simp add: div_mult2_eq [symmetric])
  have "n div 4096 * 16 + n div 256 mod 16 = n div 256" unfolding a by (rule div_mult_mod_eq)
  moreover have "n div 256 * 16 + n div 16 mod 16 = n div 16" unfolding b by (rule div_mult_mod_eq)
  moreover have "n div 16 * 16 + n mod 16 = n" by (rule div_mult_mod_eq)
  ultimately show ?thesis by simp
qed

lemma hex4_escape:
  "hex4 (hex_digit (unat u div 4096)) (hex_digit (unat u div 256 mod 16))
        (hex_digit (unat u div 16 mod 16)) (hex_digit (unat u mod 16)) = Some (u::code_unit)"
proof -
  have b: "unat u < 65536" using unsigned_less [of u, where 'a = nat] by simp
  then have "unat u div 4096 < 16" by simp
  then have 1: "hex_value (hex_digit (unat u div 4096)) = Some (unat u div 4096)"
    by (rule hex_value_digit)
  have 2: "hex_value (hex_digit (unat u div 256 mod 16)) = Some (unat u div 256 mod 16)"
    by (rule hex_value_digit) simp
  have 3: "hex_value (hex_digit (unat u div 16 mod 16)) = Some (unat u div 16 mod 16)"
    by (rule hex_value_digit) simp
  have 4: "hex_value (hex_digit (unat u mod 16)) = Some (unat u mod 16)"
    by (rule hex_value_digit) simp
  show ?thesis
    unfolding hex4_def 1 2 3 4 by (simp only: hex_sum prod.case option.case) simp
qed

lemma unquote_quote_unit:
  "unquote_units (quote_unit u @ rest) = map_option ((#) u) (unquote_units rest)"
  by (simp add: quote_unit_def unicode_escape_def simple_escape_def hex4_escape)

lemma surrogate_plain:
  "is_surrogate u \<Longrightarrow> u \<noteq> 0x22 \<and> u \<noteq> 0x5C \<and> \<not> u < 0x20"
  by (auto simp: is_surrogate_def word_le_nat_alt word_less_nat_alt)

lemma high_is_surrogate: "is_high_surrogate u \<Longrightarrow> is_surrogate u"
  by (auto simp: is_surrogate_def is_high_surrogate_def word_le_nat_alt)

lemma low_is_surrogate: "is_low_surrogate u \<Longrightarrow> is_surrogate u"
  by (auto simp: is_surrogate_def is_low_surrogate_def word_le_nat_alt)

lemma unquote_plain:
  "is_surrogate u \<Longrightarrow> unquote_units (u # rest) = map_option ((#) u) (unquote_units rest)"
  using surrogate_plain [of u] by simp

lemma unquote_quote_units: "unquote_units (quote_units s @ [0x22]) = Some s"
proof (induction s rule: quote_units.induct)
  case 1
  show ?case by simp
next
  case (2 u)
  show ?case by (simp add: unquote_quote_unit)
next
  case (3 u v us)
  show ?case
  proof (cases "is_high_surrogate u \<and> is_low_surrogate v")
    case True
    then have q: "quote_units (u # v # us) = u # v # quote_units us" by simp
    have "unquote_units (u # v # quote_units us @ [0x22]) = Some (u # v # us)"
      using True 3
      by (simp only: unquote_plain high_is_surrogate low_is_surrogate) simp
    then show ?thesis by (simp only: q append_Cons)
  next
    case False
    then have q: "quote_units (u # v # us) = quote_unit u @ quote_units (v # us)" by auto
    show ?thesis using False 3 by (simp only: q append_assoc unquote_quote_unit) simp
  qed
qed

lemma JSON_parse_stringify: "JSON_parse_string (JSON_stringify (JStr s)) = Some s"
  by (simp add: JSON_parse_string_def QuoteJSONString_def unquote_quote_units)

lemma unat_byte_of: "n < 256 \<Longrightarrow> unat (byte_of n) = n"
  by (simp add: byte_of_def unat_of_nat)

lemma cont_byte:
  "k < 64 \<Longrightarrow> is_continuation (byte_of (0x80 + k)) \<and> continuation_bits (byte_of (0x80 + k)) = k"
  by (simp add: is_continuation_def continuation_bits_def word_le_nat_alt unat_byte_of)

lemma split_64: "(n::nat) div 64 * 64 + n mod 64 = n"
  by (rule div_mult_mod_eq)

lemma horner_64: "(a::nat) * 4096 + b * 64 + c = (a * 64 + b) * 64 + c"
  by simp

lemma horner_4096: "(a::nat) * 262144 + b * 4096 + c * 64 + d = (a * 4096 + b * 64 + c) * 64 + d"
  by simp

lemma split_4096: "(n::nat) div 4096 * 4096 + n div 64 mod 64 * 64 + n mod 64 = n"
proof -
  define q where "q = n div 64"
  have a: "n div 4096 = q div 64" by (simp add: q_def div_mult2_eq [symmetric])
  have "q div 64 * 4096 + q mod 64 * 64 + n mod 64 = (q div 64 * 64 + q mod 64) * 64 + n mod 64"
    by (rule horner_64)
  also have "\<dots> = q * 64 + n mod 64" by (simp only: split_64)
  also have "\<dots> = n" unfolding q_def by (rule split_64)
  finally show ?thesis unfolding a q_def .
qed

lemma split_262144:
  "(n::nat) div 262144 * 262144 + n div 4096 mod 64 * 4096 + n div 64 mod 64 * 64 + n mod 64 = n"
proof -
  define q where "q = n div 64"
  have a: "n div 4096 = q div 64" by (simp add: q_def div_mult2_eq [symmetric])
  have b: "n div 262144 = q div 4096" by (simp add: q_def div_mult2_eq [symmetric])
  have "q div 4096 * 262144 + q div 64 mod 64 * 4096 + q mod 64 * 64 + n mod 64
      = (q div 4096 * 4096 + q div 64 mod 64 * 64 + q mod 64) * 64 + n mod 64"
    by (rule horner_4096)
  also have "\<dots> = q * 64 + n mod 64" by (simp only: split_4096)
  also have "\<dots> = n" unfolding q_def by (rule split_64)
  finally show ?thesis unfolding a b q_def .
qed

lemma decode_lead_1:
  "unat b < 0x80 \<Longrightarrow> utf8_decode (b # rest) = map_option ((#) (unat b)) (utf8_decode rest)"
  by (simp add: word_less_nat_alt)

lemma decode_lead_2:
  "unat b = 0xC0 + h \<Longrightarrow> h < 32 \<Longrightarrow> is_continuation b1 \<Longrightarrow>
   utf8_decode (b # b1 # rest) =
     map_option ((#) (h * 64 + continuation_bits b1)) (utf8_decode rest)"
  by (simp add: word_less_nat_alt word_le_nat_alt)

lemma decode_lead_3:
  "unat b = 0xE0 + h \<Longrightarrow> h < 16 \<Longrightarrow> is_continuation b1 \<Longrightarrow> is_continuation b2 \<Longrightarrow>
   utf8_decode (b # b1 # b2 # rest) =
     map_option ((#) (h * 4096 + continuation_bits b1 * 64 + continuation_bits b2))
       (utf8_decode rest)"
  by (simp add: word_less_nat_alt word_le_nat_alt)

lemma decode_lead_4:
  "unat b = 0xF0 + h \<Longrightarrow> h < 8 \<Longrightarrow> is_continuation b1 \<Longrightarrow> is_continuation b2 \<Longrightarrow>
   is_continuation b3 \<Longrightarrow>
   utf8_decode (b # b1 # b2 # b3 # rest) =
     map_option
       ((#) (h * 262144 + continuation_bits b1 * 4096 + continuation_bits b2 * 64 +
             continuation_bits b3))
       (utf8_decode rest)"
  by (simp add: word_less_nat_alt word_le_nat_alt)

lemma decode_utf8_bytes:
  assumes "cp < 0x110000"
  shows "utf8_decode (utf8_bytes cp @ rest) = map_option ((#) cp) (utf8_decode rest)"
proof -
  note c0 = cont_byte [of "cp mod 64", simplified]
  note c1 = cont_byte [of "cp div 64 mod 64", simplified]
  note c2 = cont_byte [of "cp div 4096 mod 64", simplified]
  consider "cp < 0x80" | "\<not> cp < 0x80" "cp < 0x800" | "\<not> cp < 0x800" "cp < 0x10000"
    | "\<not> cp < 0x10000"
    by blast
  then show ?thesis
  proof cases
    case 1
    then have u: "unat (byte_of cp) = cp" by (intro unat_byte_of) simp
    have "utf8_bytes cp = [byte_of cp]" using 1 by (simp add: utf8_bytes_def)
    then show ?thesis using decode_lead_1 [of "byte_of cp" rest] 1 u by simp
  next
    case 2
    then have l: "cp div 64 < 32" by simp
    then have u: "unat (byte_of (0xC0 + cp div 64)) = 0xC0 + cp div 64"
      by (intro unat_byte_of) simp
    have "utf8_bytes cp = [byte_of (0xC0 + cp div 64), byte_of (0x80 + cp mod 64)]"
      using 2 by (simp add: utf8_bytes_def)
    then show ?thesis
      using decode_lead_2 [OF u l conjunct1 [OF c0], of rest]
      by (simp only: append_Cons append_Nil conjunct2 [OF c0] split_64)
  next
    case 3
    then have l: "cp div 4096 < 16" by simp
    then have u: "unat (byte_of (0xE0 + cp div 4096)) = 0xE0 + cp div 4096"
      by (intro unat_byte_of) simp
    have "utf8_bytes cp =
      [byte_of (0xE0 + cp div 4096), byte_of (0x80 + cp div 64 mod 64), byte_of (0x80 + cp mod 64)]"
      using 3 by (simp add: utf8_bytes_def)
    then show ?thesis
      using decode_lead_3 [OF u l conjunct1 [OF c1] conjunct1 [OF c0], of rest]
      by (simp only: append_Cons append_Nil conjunct2 [OF c0] conjunct2 [OF c1] split_4096)
  next
    case 4
    then have l: "cp div 262144 < 8" using assms by simp
    then have u: "unat (byte_of (0xF0 + cp div 262144)) = 0xF0 + cp div 262144"
      by (intro unat_byte_of) simp
    have "utf8_bytes cp =
      [byte_of (0xF0 + cp div 262144), byte_of (0x80 + cp div 4096 mod 64),
       byte_of (0x80 + cp div 64 mod 64), byte_of (0x80 + cp mod 64)]"
      using 4 by (simp add: utf8_bytes_def)
    then show ?thesis
      using decode_lead_4 [OF u l conjunct1 [OF c2] conjunct1 [OF c1] conjunct1 [OF c0], of rest]
      by (simp only: append_Cons append_Nil conjunct2 [OF c0] conjunct2 [OF c1]
            conjunct2 [OF c2] split_262144)
  qed
qed

lemma unit_of_unat: "unit_of (unat u) = u"
  by (simp add: unit_of_def)

lemma unat_unit_bound: "unat (u::code_unit) < 0x10000"
  using unsigned_less [of u, where 'a = nat] by simp

lemma pair_code_point:
  assumes "is_high_surrogate u" "is_low_surrogate v"
  shows "units_of_code_point (0x10000 + (unat u - 0xD800) * 0x400 + (unat v - 0xDC00)) = [u, v]"
    and "plain_code_point (0x10000 + (unat u - 0xD800) * 0x400 + (unat v - 0xDC00))"
proof -
  define a where "a = unat u - 0xD800"
  define b where "b = unat v - 0xDC00"
  have u: "unat u = 0xD800 + a" "a < 0x400"
    using assms(1) by (auto simp: a_def is_high_surrogate_def word_le_nat_alt)
  have v: "unat v = 0xDC00 + b" "b < 0x400"
    using assms(2) by (auto simp: b_def is_low_surrogate_def word_le_nat_alt)
  have d: "(a * 0x400 + b) div 0x400 = a" "(a * 0x400 + b) mod 0x400 = b"
    using v(2) by simp_all
  have "units_of_code_point (0x10000 + a * 0x400 + b) = [unit_of (0xD800 + a), unit_of (0xDC00 + b)]"
    using d by (simp add: units_of_code_point_def)
  also have "\<dots> = [u, v]"
    by (simp only: u(1) [symmetric] v(1) [symmetric] unit_of_unat)
  finally show "units_of_code_point (0x10000 + (unat u - 0xD800) * 0x400 + (unat v - 0xDC00)) = [u, v]"
    unfolding a_def b_def .
  have "a * 0x400 + b < 0x100000" using u(2) v(2) by simp
  then show "plain_code_point (0x10000 + (unat u - 0xD800) * 0x400 + (unat v - 0xDC00))"
    unfolding a_def [symmetric] b_def [symmetric] by (simp add: plain_code_point_def)
qed

lemma single_code_point: "units_of_code_point (unat u) = [u]"
  using unat_unit_bound [of u] by (simp add: units_of_code_point_def unit_of_unat)

lemma units_of_code_points: "concat (map units_of_code_point (code_points s)) = s"
  by (induction s rule: code_points.induct) (simp_all add: single_code_point pair_code_point)

lemma decode_plain:
  "list_all plain_code_point cps \<Longrightarrow>
   utf8_decode (concat (map (\<lambda>cp. utf8_bytes (scalar_value cp)) cps)) = Some cps"
proof (induction cps)
  case Nil
  show ?case by simp
next
  case (Cons cp cps)
  then have p: "cp < 0x110000" "scalar_value cp = cp"
    by (auto simp: plain_code_point_def scalar_value_def)
  show ?case using Cons by (simp add: p decode_utf8_bytes)
qed

lemma decode_encode:
  "list_all plain_code_point (code_points s) \<Longrightarrow> TextDecoder_decode (TextEncoder_encode s) = Some s"
  by (simp add: TextDecoder_decode_def TextEncoder_encode_def decode_plain units_of_code_points)

lemma plain_unit: "\<not> is_surrogate u \<Longrightarrow> plain_code_point (unat u)"
  using unat_unit_bound [of u]
  by (simp add: plain_code_point_def is_surrogate_def word_le_nat_alt)

lemma code_points_plain_prefix:
  "list_all (\<lambda>u. \<not> is_surrogate u) a \<Longrightarrow> list_all plain_code_point (code_points b) \<Longrightarrow>
   list_all plain_code_point (code_points (a @ b))"
proof (induction a)
  case Nil
  then show ?case by simp
next
  case (Cons u a)
  then have h: "\<not> is_high_surrogate u" "plain_code_point (unat u)"
    using high_is_surrogate [of u] by (auto simp: plain_unit)
  from Cons have r: "list_all plain_code_point (code_points (a @ b))" by simp
  show ?case
  proof (cases "a @ b")
    case Nil
    then show ?thesis using h by simp
  next
    case (Cons v w)
    have "code_points (u # v # w) = unat u # code_points (v # w)" using h by simp
    then show ?thesis using r h Cons by simp
  qed
qed

lemma hex_digit_plain: "d < 16 \<Longrightarrow> \<not> is_surrogate (hex_digit d)"
  by (simp add: hex_digit_def is_surrogate_def word_le_nat_alt unat_of_nat)

lemma quote_unit_plain: "list_all (\<lambda>x. \<not> is_surrogate x) (quote_unit u)"
proof -
  have "unat u div 4096 < 16" using unat_unit_bound [of u] by simp
  then show ?thesis
    by (simp add: quote_unit_def unicode_escape_def hex_digit_plain)
       (simp add: is_surrogate_def word_le_nat_alt)
qed

lemma quote_units_plain:
  "list_all plain_code_point (code_points t) \<Longrightarrow>
   list_all plain_code_point (code_points (quote_units s @ t))"
proof (induction s rule: quote_units.induct)
  case 1
  then show ?case by simp
next
  case (2 u)
  then show ?case by (simp add: code_points_plain_prefix quote_unit_plain)
next
  case (3 u v us)
  show ?case
  proof (cases "is_high_surrogate u \<and> is_low_surrogate v")
    case True
    then show ?thesis using 3 by (simp add: pair_code_point)
  next
    case False
    then have q: "quote_units (u # v # us) = quote_unit u @ quote_units (v # us)" by auto
    have "list_all plain_code_point (code_points (quote_units (v # us) @ t))"
      using False 3 by simp
    then show ?thesis
      unfolding q append_assoc by (rule code_points_plain_prefix [OF quote_unit_plain])
  qed
qed

lemma ascii_plain: "list_all (\<lambda>x. \<not> is_surrogate x) (ascii ''0:'')"
  by (simp add: ascii_def is_surrogate_def word_le_nat_alt)

lemma content_record_plain: "list_all plain_code_point (code_points (content_record c))"
proof -
  have t: "list_all plain_code_point (code_points [0x22, 0x0A])"
    by (simp add: is_high_surrogate_def word_le_nat_alt plain_code_point_def)
  have "content_record c = ascii ''0:'' @ [0x22] @ quote_units c @ [0x22, 0x0A]"
    by (simp add: content_record_def QuoteJSONString_def)
  moreover have "list_all plain_code_point (code_points (ascii ''0:'' @ [0x22] @ quote_units c @ [0x22, 0x0A]))"
    by (intro code_points_plain_prefix ascii_plain quote_units_plain t)
       (simp add: is_surrogate_def word_le_nat_alt)
  ultimately show ?thesis by simp
qed

lemma start_run:
  "start message new_controller =
     Inr \<lparr>queue = map (\<lambda>c. TextEncoder_encode (content_record c)) (line_contents message) @
                  [TextEncoder_encode (finish_record message), TextEncoder_encode (done_record message)],
          closed = True\<rparr>"
proof -
  let ?ls = "split_on 0x0A message"
  have "emit_lines ?ls 0 new_controller =
      Inr (new_controller\<lparr>queue := queue new_controller @
        map (\<lambda>j. TextEncoder_encode (content_record (content_of ?ls j))) [0..<length ?ls]\<rparr>)"
    by (rule emit_lines_run) (simp_all add: new_controller_def)
  moreover have "map (\<lambda>j. TextEncoder_encode (content_record (content_of ?ls j))) [0..<length ?ls]
      = map (\<lambda>c. TextEncoder_encode (content_record c)) (map (content_of ?ls) [0..<length ?ls])"
    by simp
  ultimately show ?thesis
    by (simp add: start_def enqueue_def close_def new_controller_def line_contents_def
          content_list [OF split_on_nonempty] del: map_map)
qed

lemma those_map_Some: "those (map Some xs) = Some xs"
  by (induction xs) simp_all

lemma code_points_Cons:
  "\<not> is_surrogate u \<Longrightarrow> code_points (u # rest) = unat u # code_points rest"
  using high_is_surrogate [of u] by (cases rest) auto

lemma encode_Cons:
  "\<not> is_surrogate u \<Longrightarrow>
   TextEncoder_encode (u # rest) = utf8_bytes (unat u) @ TextEncoder_encode rest"
proof -
  assume u: "\<not> is_surrogate u"
  have s: "scalar_value (unat u) = unat u"
    using plain_unit [OF u] by (auto simp: scalar_value_def plain_code_point_def)
  show ?thesis by (simp add: TextEncoder_encode_def code_points_Cons [OF u] s)
qed

lemma tag_of_record:
  "\<not> is_surrogate t \<Longrightarrow> unat t < 0x80 \<Longrightarrow>
   take 2 (TextEncoder_encode (t # 0x3A # rest)) = [byte_of (unat t), 0x3A]"
proof -
  assume t: "\<not> is_surrogate t" "unat t < 0x80"
  have c: "\<not> is_surrogate (0x3A :: code_unit)" by (simp add: is_surrogate_def)
  show ?thesis
    using t by (simp add: encode_Cons [OF t(1)] encode_Cons [OF c] utf8_bytes_def byte_of_def)
qed

lemma content_tag: "take 2 (TextEncoder_encode (content_record c)) = [0x30, 0x3A]"
proof -
  have "content_record c = 0x30 # 0x3A # (JSON_stringify (JStr c) @ [0x0A])"
    by (simp add: content_record_def ascii_def)
  then show ?thesis
    by (simp only: tag_of_record) (simp add: tag_of_record is_surrogate_def byte_of_def)
qed

lemma finish_tag: "take 2 (TextEncoder_encode (finish_record m)) = [0x65, 0x3A]"
proof -
  have "finish_record m = 0x65 # 0x3A # (JSON_stringify (finish_event m) @ [0x0A])"
    by (simp add: finish_record_def ascii_def)
  then show ?thesis
    by (simp add: tag_of_record is_surrogate_def byte_of_def)
qed

lemma done_tag: "take 2 (TextEncoder_encode (done_record m)) = [0x64, 0x3A]"
proof -
  have "done_record m = 0x64 # 0x3A # (JSON_stringify (done_event m) @ [0x0A])"
    by (simp add: done_record_def ascii_def)
  then show ?thesis
    by (simp add: tag_of_record is_surrogate_def byte_of_def)
qed

lemma read_content_record: "read_content_chunk (TextEncoder_encode (content_record c)) = Some c"
proof -
  have d: "TextDecoder_decode (TextEncoder_encode (content_record c)) = Some (content_record c)"
    by (rule decode_encode [OF content_record_plain])
  have "content_record c = 0x30 # 0x3A # (JSON_stringify (JStr c) @ [0x0A])"
    by (simp add: content_record_def ascii_def)
  then have "frame_payload 0x30 (content_record c) = Some (JSON_stringify (JStr c))"
    by (simp add: frame_payload_def)
  then show ?thesis
    by (simp add: read_content_chunk_def d JSON_parse_stringify del: JSON_stringify.simps)
qed

lemma concat_line_contents: "concat (line_contents message) = message"
  unfolding line_contents_def by (rule concat_contents)

lemma content_chunks:
  "filter is_content_chunk
     (map (\<lambda>c. TextEncoder_encode (content_record c)) cs @
      [TextEncoder_encode (finish_record m), TextEncoder_encode (done_record m)])
   = map (\<lambda>c. TextEncoder_encode (content_record c)) cs"
  by (simp add: is_content_chunk_def content_tag finish_tag done_tag filter_map o_def)

section \<open>Lemmas: the handler\<close>

lemma start_ok: "\<exists>c. start message new_controller = Inr c"
  by (simp add: start_run)

lemma map_clean_ok: "JNull \<notin> set ms \<Longrightarrow> \<exists>cs. map_clean ms = Inr cs \<and> length cs = length ms"
proof (induction ms)
  case Nil
  show ?case by simp
next
  case (Cons m ms)
  then obtain cs where cs: "map_clean ms = Inr cs" "length cs = length ms" by auto
  from Cons.prems have "m \<noteq> JNull" by auto
  then obtain c where "clean_message m = Inr c" by (cases m) auto
  then show ?case using cs by simp
qed

lemma map_clean_records:
  "map_clean (map JObj records) = Inr (map (\<lambda>fs. JObj (without_attachments fs)) records)"
  by (induction records) simp_all

lemma detection_pipeline_total: "\<exists>m. detection_pipeline env images = Inr m"
  by (cases "try_body env images") (simp_all add: detection_pipeline_def catch_block_def)

lemma comparison_returns:
  "\<forall>fs. images \<noteq> JObj fs \<Longrightarrow> \<exists>b. greater_than_zero env (length_of images) = Inr b"
  by (cases images) (auto simp: greater_than_zero_def length_of_def)

lemma response_message_returns:
  assumes "\<forall>fs. optional_images data \<noteq> Some (JObj fs)"
  shows "\<exists>m. response_message env data = Inr m"
proof (cases "optional_images data")
  case None
  then show ?thesis by (simp add: response_message_def)
next
  case (Some images)
  then have "\<forall>fs. images \<noteq> JObj fs" using assms by simp
  then obtain b where "greater_than_zero env (length_of images) = Inr b"
    using comparison_returns by blast
  then show ?thesis
    using Some detection_pipeline_total [of env images] by (auto simp: response_message_def)
qed

lemma POST_after_cleaning:
  assumes "member body (ascii ''messages'') = Some v" "cleanedMessages (Some v) = Inr cleaned"
  shows "POST env body =
     (case response_message env (member body (ascii ''data'')) of
        Inl e \<Rightarrow> Inl e
      | Inr message \<Rightarrow>
          (case start message new_controller of
             Inl e \<Rightarrow> Inl e
           | Inr c \<Rightarrow>
               Inr \<lparr>stream = c,
                    headers = [(''Content-Type'', ''text/plain; charset=utf-8''),
                               (''X-Vercel-AI-Data-Stream'', ''v1'')]\<rparr>))"
proof -
  have "body \<noteq> JNull" using assms(1) by (auto simp: member_def)
  then have "destructure_body body =
      Inr (member body (ascii ''messages''), member body (ascii ''selectedModel''),
           member body (ascii ''data''))"
    by (cases body) (simp_all add: destructure_body_def)
  then show ?thesis using assms by (simp add: POST_def)
qed

lemma code_points_plain: "list_all (\<lambda>u. \<not> is_surrogate u) s \<Longrightarrow> code_points s = map unat s"
  by (induction s) (simp_all add: code_points_Cons)

lemma encodeURIComponent_plain:
  assumes "list_all (\<lambda>u. \<not> is_surrogate u) s"
  shows "encodeURIComponent s = Inr (concat (map (\<lambda>u. encode_code_point (unat u)) s))"
proof -
  have "\<not> list_ex (\<lambda>cp. 0xD800 \<le> cp \<and> cp \<le> 0xDFFF) (map unat s)"
    using assms
    by (induction s) (auto simp: is_surrogate_def word_le_nat_alt)
  then show ?thesis
    by (simp add: encodeURIComponent_def code_points_plain [OF assms] o_def)
qed

lemma digit_unit:
  assumes "d < 10"
  shows "0x30 \<le> unat (of_char (digit_char d) :: code_unit) \<and>
         unat (of_char (digit_char d) :: code_unit) \<le> 0x39"
proof -
  have "d = 0 \<or> d = 1 \<or> d = 2 \<or> d = 3 \<or> d = 4 \<or> d = 5 \<or> d = 6 \<or> d = 7 \<or> d = 8 \<or> d = 9"
    using assms by arith
  then show ?thesis
    by (elim disjE) (simp_all add: digit_char_def)
qed

lemma show_nat_digits:
  "list_all (\<lambda>u. 0x30 \<le> unat u \<and> unat u \<le> 0x39) (ascii (show_nat n))"
proof (induction n rule: show_nat.induct)
  case (1 n)
  show ?case
  proof (cases "n < 10")
    case True
    then show ?thesis
      using digit_unit [of n] by (subst show_nat.simps) (simp add: ascii_def)
  next
    case False
    then show ?thesis
      using 1 digit_unit [of "n mod 10"]
      by (subst show_nat.simps) (simp add: ascii_def)
  qed
qed

lemma digit_not_surrogate: "0x30 \<le> unat u \<and> unat u \<le> 0x39 \<Longrightarrow> \<not> is_surrogate u"
  by (simp add: is_surrogate_def word_le_nat_alt)

lemma digit_encoded:
  "0x30 \<le> unat (u::code_unit) \<and> unat u \<le> 0x39 \<Longrightarrow> encode_code_point (unat u) = [u]"
  by (simp add: encode_code_point_def uri_unreserved_def)

lemma digits_encoded:
  "list_all (\<lambda>u. 0x30 \<le> unat u \<and> unat u \<le> 0x39) s \<Longrightarrow>
   concat (map (\<lambda>u. encode_code_point (unat u)) s) = s"
  by (induction s) (simp_all add: digit_encoded)

lemma uploads_encoded:
  "concat (map (\<lambda>u. encode_code_point (unat u)) (ascii ''uploads/'')) = ascii ''uploads%2F''"
  by (simp add: ascii_def encode_code_point_def uri_unreserved_def utf8_bytes_def
        percent_byte_def upper_hex_digit_def byte_of_def)

lemma suffix_encoded:
  "concat (map (\<lambda>u. encode_code_point (unat u)) (ascii ''-image.jpeg'')) = ascii ''-image.jpeg''"
  by (simp add: ascii_def encode_code_point_def uri_unreserved_def)

lemma encodeURIComponent_fileKey: "encodeURIComponent (fileKey env) = Inr (encoded_fileKey env)"
proof -
  have d: "list_all (\<lambda>u. \<not> is_surrogate u) (ascii (show_nat (Date_now env)))"
    using show_nat_digits [of "Date_now env"] digit_not_surrogate
    by (simp add: list_all_iff)
  have a: "list_all (\<lambda>u. \<not> is_surrogate u) (ascii ''uploads/'')"
          "list_all (\<lambda>u. \<not> is_surrogate u) (ascii ''-image.jpeg'')"
    by (simp_all add: ascii_def is_surrogate_def word_le_nat_alt)
  have "list_all (\<lambda>u. \<not> is_surrogate u) (fileKey env)"
    using a d by (simp add: fileKey_def)
  then show ?thesis
    by (simp add: encodeURIComponent_plain)
       (simp add: fileKey_def encoded_fileKey_def uploads_encoded suffix_encoded
          digits_encoded [OF show_nat_digits])
qed

lemma element_strings: "sequence (map (element_string env \<circ> JStr) labels) = Inr labels"
  by (induction labels) (simp_all add: element_string_def)

lemma show_int_length: "show_int (int n) = show_nat n"
  by (simp add: show_int_def)

lemma finish_record_text:
  \<open>finish_record message =
     ascii ''e:{"finishReason":"stop","usage":{"promptTokens":10,"completionTokens":'' @
     ascii (show_nat (length message)) @ ascii ''},"isContinued":false}'' @ [0x0A]\<close>
  by (simp add: finish_record_def finish_event_def QuoteJSONString_def quote_unit_def
        is_high_surrogate_def is_surrogate_def show_int_length ascii_def)
     (simp add: show_int_def show_nat.simps digit_char_def)

lemma done_record_text:
  \<open>done_record message =
     ascii ''d:{"finishReason":"stop","usage":{"promptTokens":10,"completionTokens":'' @
     ascii (show_nat (length message)) @ ascii ''}}'' @ [0x0A]\<close>
  by (simp add: done_record_def done_event_def QuoteJSONString_def quote_unit_def
        is_high_surrogate_def is_surrogate_def show_int_length ascii_def)
     (simp add: show_int_def show_nat.simps digit_char_def)

lemma POST_returns:
  assumes "member body (ascii ''messages'') = Some (JArr ms)" and "JNull \<notin> set ms"
    and "\<forall>fs. optional_images (member body (ascii ''data'')) \<noteq> Some (JObj fs)"
  shows "\<exists>cleaned r. cleanedMessages (Some (JArr ms)) = Inr cleaned \<and>
           length cleaned = length ms \<and> POST env body = Inr r"
proof -
  obtain cleaned where c: "map_clean ms = Inr cleaned" "length cleaned = length ms"
    using map_clean_ok [OF assms(2)] by blast
  then have k: "cleanedMessages (Some (JArr ms)) = Inr cleaned"
    by (simp add: cleanedMessages_def)
  obtain m where m: "response_message env (member body (ascii ''data'')) = Inr m"
    using response_message_returns [OF assms(3)] by blast
  obtain s where s: "start m new_controller = Inr s"
    using start_ok by blast
  show ?thesis
    using c k by (simp add: POST_after_cleaning [OF assms(1) k] m s)
qed

lemma service_env_prediction:
  "200 \<le> code \<and> code \<le> 299 \<Longrightarrow> obtain_prediction (service_env code result) images = Inr result"
  by (simp add: obtain_prediction_def encodeURIComponent_fileKey ok_def service_env_def)

lemma POST_same_data:
  assumes "member body1 (ascii ''data'') = member body2 (ascii ''data'')"
    and "member body1 (ascii ''messages'') = Some (JArr ms1)" and "JNull \<notin> set ms1"
    and "member body2 (ascii ''messages'') = Some (JArr ms2)" and "JNull \<notin> set ms2"
  shows "POST env body1 = POST env body2"
proof -
  obtain c1 where c1: "cleanedMessages (Some (JArr ms1)) = Inr c1"
    using map_clean_ok [OF assms(3)] by (auto simp: cleanedMessages_def)
  obtain c2 where c2: "cleanedMessages (Some (JArr ms2)) = Inr c2"
    using map_clean_ok [OF assms(5)] by (auto simp: cleanedMessages_def)
  show ?thesis
    by (simp only: POST_after_cleaning [OF assms(2) c1] POST_after_cleaning [OF assms(4) c2]
          assms(1))
qed

lemma failing_env_pipeline:
  "detection_pipeline (failing_env e) images =
     Inr (error_header @ error_text (failing_env e) e @ availability_hint)"
  by (simp add: detection_pipeline_def try_body_def obtain_prediction_def failing_env_def
        catch_block_def)

section \<open>The stream framer: claims\<close>

text \<open>
  Claim C2 (round trip of the stream framer). For every response message, blank lines
  inside it included, \<^verbatim>\<open>start\<close> succeeds on a fresh controller, and reading back the
  chunks tagged \<open>0:\<close> (UTF-8 decoded, the tag and the final line feed removed, the JSON
  string literal parsed) and concatenating their contents gives the message again.
\<close>

theorem stream_round_trip:
  "\<exists>c. start message new_controller = Inr c \<and>
     map_option concat (those (map read_content_chunk (filter is_content_chunk (queue c))))
       = Some message"
proof -
  define chunks where
    "chunks = map (\<lambda>c. TextEncoder_encode (content_record c)) (line_contents message)"
  define c where
    "c = \<lparr>queue = chunks @ [TextEncoder_encode (finish_record message),
                             TextEncoder_encode (done_record message)], closed = True\<rparr>"
  have s: "start message new_controller = Inr c"
    unfolding c_def chunks_def by (rule start_run)
  have f: "filter is_content_chunk (queue c) = chunks"
    unfolding c_def chunks_def by (simp only: controller.simps content_chunks)
  have "map read_content_chunk chunks = map Some (line_contents message)"
    unfolding chunks_def by (simp add: read_content_record)
  then have "those (map read_content_chunk (filter is_content_chunk (queue c)))
      = Some (line_contents message)"
    by (simp only: f those_map_Some)
  then have "map_option concat (those (map read_content_chunk (filter is_content_chunk (queue c))))
      = Some message"
    by (simp add: concat_line_contents)
  with s show ?thesis by blast
qed

text \<open>The message \<open>a\<close>, an empty line, \<open>b\<close>.\<close>

theorem stream_round_trip_witness:
  "\<exists>c. start [0x61, 0x0A, 0x0A, 0x62] new_controller = Inr c \<and>
     map_option concat (those (map read_content_chunk (filter is_content_chunk (queue c))))
       = Some [0x61, 0x0A, 0x0A, 0x62]"
  by (rule stream_round_trip)

text \<open>
  Claim C3 (order of the stream). For every response message, the empty one included,
  \<^verbatim>\<open>start\<close> succeeds on a fresh controller; the tags of the chunks it enqueued are
  \<open>0:\<close> once for every line of the message, then \<open>e:\<close> once, then \<open>d:\<close> once; the
  controller is closed, and any further \<^verbatim>\<open>enqueue\<close> or \<^verbatim>\<open>close\<close> throws and adds
  nothing.
\<close>

theorem stream_trailer_order:
  "\<exists>c. start message new_controller = Inr c \<and>
     map (take 2) (queue c) =
       replicate (length (split_on 0x0A message)) [0x30, 0x3A] @ [[0x65, 0x3A], [0x64, 0x3A]] \<and>
     closed c \<and>
     (\<forall>chunk. enqueue c chunk = Inl (EngineError ControllerClosed)) \<and>
     close c = Inl (EngineError ControllerClosed)"
proof -
  have n: "length (line_contents message) = length (split_on 0x0A message)"
    using split_on_nonempty [of "0x0A" message] by (simp add: line_contents_def)
  have "map (take 2) (map (\<lambda>c. TextEncoder_encode (content_record c)) (line_contents message))
      = replicate (length (line_contents message)) [0x30, 0x3A]"
    by (simp add: content_tag map_replicate_const o_def)
  then show ?thesis
    by (simp add: start_run finish_tag done_tag enqueue_def close_def n del: map_map)
qed

text \<open>The empty message: one content record, then the two trailers.\<close>

theorem stream_trailer_order_witness:
  "\<exists>c. start [] new_controller = Inr c \<and>
     map (take 2) (queue c) = [[0x30, 0x3A], [0x65, 0x3A], [0x64, 0x3A]] \<and>
     closed c \<and>
     (\<forall>chunk. enqueue c chunk = Inl (EngineError ControllerClosed)) \<and>
     close c = Inl (EngineError ControllerClosed)"
  using stream_trailer_order [of "[]"] by simp

section \<open>The handler: claims\<close>

text \<open>
  Claim C1 (the pipeline never raises, and what its error message holds), as stated,
  fails in its side condition. An \<^verbatim>\<open>Error\<close> made without a message is caught and
  rendered with an empty text, not with the fallback phrase; a thrown value that is no
  \<^verbatim>\<open>Error\<close> gets the fallback phrase even when it carries a \<^verbatim>\<open>message\<close>, which is then
  lost.
\<close>

theorem empty_error_without_fallback:
  "detection_pipeline (failing_env (ErrorObj [])) one_image =
     Inr (error_header @ availability_hint) \<and>
   \<not> contains (ascii ''Unknown error'') (error_header @ availability_hint) \<and>
   detection_pipeline
     (failing_env (NonError (Some (JObj [(ascii ''message'', JStr (ascii ''boom''))]))))
     one_image =
     Inr (error_header @ ascii ''Unknown error'' @ availability_hint) \<and>
   \<not> contains (ascii ''boom'') (error_header @ ascii ''Unknown error'' @ availability_hint)"
proof -
  have "\<not> contains (ascii ''Unknown error'') (error_header @ availability_hint)"
    by code_simp
  moreover have
    "\<not> contains (ascii ''boom'') (error_header @ ascii ''Unknown error'' @ availability_hint)"
    by code_simp
  ultimately show ?thesis
    by (simp add: failing_env_pipeline error_text_def)
qed

text \<open>
  Claim C1, amended. For every environment and every image value, the guarded pipeline
  of lines 26 to 82 returns a message. Whenever a step of the \<^verbatim>\<open>try\<close> block throws,
  that message is the fixed error header, then a text, then the fixed hint about the
  service; the text is the message of the thrown value when that is an instance of
  \<^verbatim>\<open>Error\<close> (the engine's text for an error of the engine, the empty string for an
  error made without a message), and the fallback \<open>Unknown error\<close> exactly when the
  thrown value is no instance of \<^verbatim>\<open>Error\<close>.
\<close>

theorem pipeline_never_raises:
  "\<exists>message. detection_pipeline env images = Inr message \<and>
     (\<forall>e. try_body env images = Inl e \<longrightarrow>
        message = error_header @
          (case e of
             EngineError f \<Rightarrow> engine_message env f
           | ErrorObj text \<Rightarrow> text
           | NonError v \<Rightarrow> ascii ''Unknown error'') @
          availability_hint)"
  by (cases "try_body env images")
     (simp_all add: detection_pipeline_def catch_block_def error_text_def)

text \<open>
  The image cannot be fetched: the message carries the text of that error.
\<close>

theorem pipeline_never_raises_witness:
  "try_body offline_env one_image = Inl (ErrorObj (ascii ''fetch failed'')) \<and>
   detection_pipeline offline_env one_image =
     Inr (error_header @ ascii ''fetch failed'' @ availability_hint)"
proof -
  have t: "try_body offline_env one_image = Inl (ErrorObj (ascii ''fetch failed''))"
    by (simp add: try_body_def obtain_prediction_def offline_env_def)
  show ?thesis
    using pipeline_never_raises [of offline_env one_image] t by auto
qed

text \<open>
  Claim C4 (default prompt). When the request carries no image reference (no auxiliary
  data, no \<^verbatim>\<open>images\<close> field in it, or an empty image list), the response message is the
  fixed prompt, verbatim.
\<close>

theorem no_image_default_prompt:
  assumes "data = None \<or>
     (\<exists>fs. data = Some (JObj fs) \<and>
        (map_of fs (ascii ''images'') = None \<or> map_of fs (ascii ''images'') = Some (JArr [])))"
  shows "response_message env data = Inr (ascii ''Please provide an image for object detection.'')"
  using assms
  by (auto simp: response_message_def optional_images_def member_def default_prompt_def
        truthy_def length_of_def greater_than_zero_def)

text \<open>
  An empty image list, and no auxiliary data at all.
\<close>

theorem no_image_default_prompt_witness:
  "response_message offline_env (Some (JObj [(ascii ''images'', JArr [])])) =
     Inr (ascii ''Please provide an image for object detection.'') \<and>
   response_message offline_env None =
     Inr (ascii ''Please provide an image for object detection.'')"
  using no_image_default_prompt [of "Some (JObj [(ascii ''images'', JArr [])])" offline_env]
    no_image_default_prompt [of None offline_env]
  by simp

text \<open>
  Claim C5 (trailer payloads). For every response message the last two chunks are the
  \<open>e:\<close> record and the \<open>d:\<close> record. Both carry the finish reason \<open>stop\<close> and a usage
  with 10 prompt tokens and as many completion tokens as the message has characters
  (UTF-16 code units, as \<^verbatim>\<open>message.length\<close> counts them); the \<open>e:\<close> record has the
  continuation flag \<open>false\<close> in addition, the \<open>d:\<close> record has no such flag.
\<close>

theorem trailer_payloads:
  \<open>\<exists>c contents. start message new_controller = Inr c \<and>
     queue c = contents @
       [TextEncoder_encode
          (ascii ''e:{"finishReason":"stop","usage":{"promptTokens":10,"completionTokens":'' @
           ascii (show_nat (length message)) @ ascii ''},"isContinued":false}'' @ [0x0A]),
        TextEncoder_encode
          (ascii ''d:{"finishReason":"stop","usage":{"promptTokens":10,"completionTokens":'' @
           ascii (show_nat (length message)) @ ascii ''}}'' @ [0x0A])]\<close>
  by (simp only: start_run finish_record_text done_record_text) auto

text \<open>
  A message of three code units, the first two a surrogate pair.
\<close>

theorem trailer_payloads_witness:
  \<open>\<exists>c contents. start [0xD83D, 0xDD0D, 0x61] new_controller = Inr c \<and>
     queue c = contents @
       [TextEncoder_encode
          (ascii ''e:{"finishReason":"stop","usage":{"promptTokens":10,"completionTokens":3},"isContinued":false}'' @ [0x0A]),
        TextEncoder_encode
          (ascii ''d:{"finishReason":"stop","usage":{"promptTokens":10,"completionTokens":3}}'' @ [0x0A])]\<close>
  using trailer_payloads [of "[0xD83D, 0xDD0D, 0x61]"]
  by (simp add: ascii_def show_nat.simps digit_char_def)

text \<open>
  Claim C6 (success message), as stated, fails for a count beyond the safe integers:
  the handler prints the number as the engine holds it, a double. The service answers
  with the count \<open>2^60 = 1152921504606846976\<close>; the message shows
  \<open>1152921504606847000\<close> and nowhere the exact count.
\<close>

theorem huge_count_rounded:
  "member huge_count (ascii ''detection_count'') = Some (JNum 1152921504606846976) \<and>
   detection_pipeline (service_env 200 huge_count) one_image =
     Inr (success_message (ascii ''1152921504606847000'') (ascii ''cat'') (ascii ''abc123'')) \<and>
   \<not> contains (ascii (show_int 1152921504606846976))
       (success_message (ascii ''1152921504606847000'') (ascii ''cat'') (ascii ''abc123''))"
proof -
  have p: "obtain_prediction (service_env 200 huge_count) one_image = Inr huge_count"
    by (rule service_env_prediction) simp
  have f: "format_result (service_env 200 huge_count) huge_count =
      Inr (success_message (ascii ''1152921504606847000'') (ascii ''cat'') (ascii ''abc123''))"
    by (simp add: format_result_def huge_count_def read_prop_def member_def template_string_def
          number_text_def join_labels_def element_string_def service_env_def ascii_def)
  have d: "detection_pipeline (service_env 200 huge_count) one_image =
      Inr (success_message (ascii ''1152921504606847000'') (ascii ''cat'') (ascii ''abc123''))"
    by (simp add: detection_pipeline_def try_body_def p f)
  have s: "show_int 1152921504606846976 = ''1152921504606846976''"
    by (simp add: show_int_def show_nat.simps digit_char_def)
  have c0: "\<not> contains (ascii ''1152921504606846976'')
       (success_message (ascii ''1152921504606847000'') (ascii ''cat'') (ascii ''abc123''))"
    by code_simp
  have c: "\<not> contains (ascii (show_int 1152921504606846976))
       (success_message (ascii ''1152921504606847000'') (ascii ''cat'') (ascii ''abc123''))"
    unfolding s by (rule c0)
  have m: "member huge_count (ascii ''detection_count'') = Some (JNum 1152921504606846976)"
    by (simp add: huge_count_def member_def ascii_def)
  show ?thesis
    using m d c by blast
qed

text \<open>
  Claim C6, amended. When the steps up to the prediction succeed and the prediction
  result has a count \<open>n\<close> that is a safe integer (magnitude at most \<open>2^53 - 1\<close>), labels
  that are strings and an identifier that is a string, the response message is the
  template of lines 66 to 72 with the count in decimal, the labels joined by a comma and
  a space, and the identifier, each in full.
\<close>

theorem detection_result_reported:
  assumes "obtain_prediction env images = Inr predictionResult"
    and "member predictionResult (ascii ''detection_count'') = Some (JNum n)"
    and "- 9007199254740991 \<le> n \<and> n \<le> 9007199254740991"
    and "member predictionResult (ascii ''labels'') = Some (JArr (map JStr labels))"
    and "member predictionResult (ascii ''prediction_uid'') = Some (JStr uid)"
  shows "detection_pipeline env images =
     Inr ([0xD83D, 0xDD0D] @ ascii '' **Object Detection Results**'' @ [0x0A, 0x0A] @
          ascii ''**Detection Count:** '' @ ascii (show_int n) @ [0x0A] @
          ascii ''**Detected Objects:** '' @ join (ascii '', '') labels @ [0x0A] @
          ascii ''**Prediction ID:** '' @ uid @ [0x0A, 0x0A] @
          ascii ''I'' @ [0x27] @ ascii ''ve analyzed your image and detected '' @
          ascii (show_int n) @ ascii '' object(s). The detected objects include: '' @
          join (ascii '', '') labels @ ascii ''.'')"
proof -
  have "predictionResult \<noteq> JNull" using assms(2) by (auto simp: member_def)
  then have r: "read_prop predictionResult p = Inr (member predictionResult p)" for p
    by (cases predictionResult) (simp_all add: read_prop_def)
  have "format_result env predictionResult =
      Inr (success_message (ascii (show_int n)) (join (ascii '', '') labels) uid)"
    using assms(2-5)
    by (simp add: format_result_def r join_labels_def element_strings template_string_def
          number_text_def)
  then show ?thesis
    using assms(1)
    by (simp add: detection_pipeline_def try_body_def success_message_def)
qed

text \<open>
  Two detections, \<open>cat\<close> and \<open>dog\<close>, with identifier \<open>abc123\<close>.
\<close>

theorem detection_result_reported_witness:
  "detection_pipeline (service_env 200 two_detections) one_image =
     Inr ([0xD83D, 0xDD0D] @ ascii '' **Object Detection Results**'' @ [0x0A, 0x0A] @
          ascii ''**Detection Count:** 2'' @ [0x0A] @
          ascii ''**Detected Objects:** cat, dog'' @ [0x0A] @
          ascii ''**Prediction ID:** abc123'' @ [0x0A, 0x0A] @
          ascii ''I'' @ [0x27] @
          ascii ''ve analyzed your image and detected 2 object(s). The detected objects include: cat, dog.'')"
proof -
  have p: "obtain_prediction (service_env 200 two_detections) one_image = Inr two_detections"
    by (rule service_env_prediction) simp
  have m: "member two_detections (ascii ''detection_count'') = Some (JNum 2)"
    "member two_detections (ascii ''labels'') = Some (JArr (map JStr [ascii ''cat'', ascii ''dog'']))"
    "member two_detections (ascii ''prediction_uid'') = Some (JStr (ascii ''abc123''))"
    by (simp_all add: two_detections_def member_def ascii_def)
  have b: "- 9007199254740991 \<le> (2::int) \<and> (2::int) \<le> 9007199254740991" by simp
  show ?thesis
    using detection_result_reported [OF p m(1) b m(2) m(3)]
    by (simp add: show_int_def show_nat.simps digit_char_def ascii_def)
qed

text \<open>
  Claim C7 (rejection by the service). When the image is fetched and stored and the
  detection service answers with a status outside 200 to 299, the \<^verbatim>\<open>try\<close> block throws
  an \<^verbatim>\<open>Error\<close> whose message ends with that status, and the guard turns it into the
  error message of every other failure: header, that text, hint.
\<close>

theorem service_rejection_reported:
  assumes "fetch env (first_element images) GET = Inr response"
    and "body_buffer response = Inr buffer"
    and "s3_send env \<lparr>Bucket = S3_BUCKET_NAME env, Key = fileKey env, Body = buffer,
                       ContentType = ascii ''image/jpeg''\<rparr> = Inr ()"
    and "fetch env (Some (JStr (predict_url env (encoded_fileKey env)))) POST_method
           = Inr predictionResponse"
    and "\<not> (200 \<le> status predictionResponse \<and> status predictionResponse \<le> 299)"
  shows "try_body env images =
           Inl (ErrorObj (ascii ''Prediction API error: '' @
                          ascii (show_nat (status predictionResponse)))) \<and>
         detection_pipeline env images =
           Inr (error_header @
                ascii ''Prediction API error: '' @ ascii (show_nat (status predictionResponse)) @
                availability_hint)"
proof -
  have "obtain_prediction env images =
      Inl (ErrorObj (ascii ''Prediction API error: '' @
                     ascii (show_nat (status predictionResponse))))"
    using assms by (simp add: obtain_prediction_def encodeURIComponent_fileKey ok_def)
  then show ?thesis
    by (simp add: try_body_def detection_pipeline_def catch_block_def error_text_def)
qed

text \<open>
  The service answers 500.
\<close>

theorem service_rejection_reported_witness:
  "try_body (service_env 500 JNull) one_image =
     Inl (ErrorObj (ascii ''Prediction API error: 500'')) \<and>
   detection_pipeline (service_env 500 JNull) one_image =
     Inr (error_header @ ascii ''Prediction API error: 500'' @ availability_hint)"
proof -
  let ?env = "service_env 500 JNull"
  let ?img = "\<lparr>status = 200, body_buffer = Inr [0xFF, 0xD8],
               body_json = Inl (ErrorObj (ascii ''not JSON''))\<rparr>"
  let ?res = "\<lparr>status = 500, body_buffer = Inr [], body_json = Inr JNull\<rparr>"
  have 1: "fetch ?env (first_element one_image) GET = Inr ?img"
    by (simp add: service_env_def)
  have 2: "body_buffer ?img = Inr [0xFF, 0xD8]" by simp
  have 3: "s3_send ?env \<lparr>Bucket = S3_BUCKET_NAME ?env, Key = fileKey ?env, Body = [0xFF, 0xD8],
                          ContentType = ascii ''image/jpeg''\<rparr> = Inr ()"
    by (simp add: service_env_def)
  have 4: "fetch ?env (Some (JStr (predict_url ?env (encoded_fileKey ?env)))) POST_method = Inr ?res"
    by (simp add: service_env_def)
  have 5: "\<not> (200 \<le> status ?res \<and> status ?res \<le> 299)" by simp
  show ?thesis
    using service_rejection_reported [OF 1 2 3 4 5]
    by (simp add: show_nat.simps digit_char_def ascii_def)
qed

text \<open>
  Claim C8 (no validation error), as stated, fails: a body without a conversation list
  makes \<^verbatim>\<open>messages.map\<close> throw outside any guard.
\<close>

theorem absent_conversation_raises:
  "POST offline_env (JObj []) = Inl (EngineError (ReadOfUndefined (ascii ''map'')))"
  by (simp add: POST_def destructure_body_def member_def cleanedMessages_def)

text \<open>
  Claim C8, amended. When the conversation list is an array without \<^verbatim>\<open>null\<close> entries
  (the empty array included) and the image list is absent or is not a plain object (any
  array, the empty one included), cleaning the conversation raises nothing, keeps its
  length, and the handler returns a response. (For a plain object in the place of the
  image list, the comparison of line 25 can throw.)
\<close>

theorem normalizer_proceeds:
  assumes "member body (ascii ''messages'') = Some (JArr ms)" and "JNull \<notin> set ms"
    and "\<forall>fs. optional_images (member body (ascii ''data'')) \<noteq> Some (JObj fs)"
  shows "\<exists>cleaned r. cleanedMessages (member body (ascii ''messages'')) = Inr cleaned \<and>
           length cleaned = length ms \<and> POST env body = Inr r"
  using POST_returns [OF assms] by (simp add: assms(1))

text \<open>
  An empty conversation list, with no auxiliary data and with an empty image list.
\<close>

theorem normalizer_proceeds_witness:
  "(\<exists>cleaned r.
     cleanedMessages (member (JObj [(ascii ''messages'', JArr [])]) (ascii ''messages''))
       = Inr cleaned \<and>
     length cleaned = 0 \<and> POST offline_env (JObj [(ascii ''messages'', JArr [])]) = Inr r) \<and>
   (\<exists>cleaned r.
     cleanedMessages
       (member (JObj [(ascii ''messages'', JArr []),
                      (ascii ''data'', JObj [(ascii ''images'', JArr [])])])
          (ascii ''messages''))
       = Inr cleaned \<and>
     length cleaned = 0 \<and>
     POST offline_env (JObj [(ascii ''messages'', JArr []),
                             (ascii ''data'', JObj [(ascii ''images'', JArr [])])]) = Inr r)"
  using normalizer_proceeds [of "JObj [(ascii ''messages'', JArr [])]" "[]" offline_env]
    normalizer_proceeds
      [of "JObj [(ascii ''messages'', JArr []),
                 (ascii ''data'', JObj [(ascii ''images'', JArr [])])]" "[]" offline_env]
  by (simp add: member_def optional_images_def ascii_def)

text \<open>
  Claim C9 (only the attachment field is removed). For a conversation of message
  records, cleaning gives one record for each, in order; a cleaned record has no
  \<^verbatim>\<open>experimental_attachments\<close> field and every other field with its value.
\<close>

theorem attachments_removed:
  "cleanedMessages (Some (JArr (map JObj records))) =
     Inr (map (\<lambda>fs. JObj (without_attachments fs)) records) \<and>
   (\<forall>fs k. map_of (without_attachments fs) k =
      (if k = ascii ''experimental_attachments'' then None else map_of fs k))"
proof -
  have "map_of (filter (\<lambda>kv. fst kv \<noteq> a) fs) k = (if k = a then None else map_of fs k)"
    for a k :: jstring and fs :: "(jstring \<times> json) list"
    by (induction fs) auto
  then show ?thesis
    by (simp add: cleanedMessages_def map_clean_records without_attachments_def)
qed

text \<open>
  A message with a role, an attachment list and a content.
\<close>

theorem attachments_removed_witness:
  "cleanedMessages
     (Some (JArr [JObj [(ascii ''role'', JStr (ascii ''user'')),
                        (ascii ''experimental_attachments'', JArr []),
                        (ascii ''content'', JStr (ascii ''hi''))]])) =
     Inr [JObj [(ascii ''role'', JStr (ascii ''user'')),
                (ascii ''content'', JStr (ascii ''hi''))]]"
  using attachments_removed
    [of "[[(ascii ''role'', JStr (ascii ''user'')),
           (ascii ''experimental_attachments'', JArr []),
           (ascii ''content'', JStr (ascii ''hi''))]]"]
  by (simp add: without_attachments_def ascii_def)

text \<open>
  Claim C10 (the response does not depend on the conversation), as stated, fails: two
  bodies with the same auxiliary data that differ in the conversation list only, one
  with a \<^verbatim>\<open>null\<close> entry, on which the handler throws, and one on which it returns.
\<close>

theorem null_message_changes_response:
  "member (JObj [(ascii ''messages'', JArr [JNull])]) (ascii ''data'') =
   member (JObj [(ascii ''messages'', JArr [])]) (ascii ''data'') \<and>
   POST offline_env (JObj [(ascii ''messages'', JArr [JNull])]) =
     Inl (EngineError (DestructureNullish (ascii ''experimental_attachments''))) \<and>
   \<not> isl (POST offline_env (JObj [(ascii ''messages'', JArr [])]))"
proof -
  have "member (JObj [(ascii ''messages'', JArr [])]) (ascii ''messages'') = Some (JArr [])"
    by (simp add: member_def)
  then obtain r where "POST offline_env (JObj [(ascii ''messages'', JArr [])]) = Inr r"
    using POST_returns [of "JObj [(ascii ''messages'', JArr [])]" "[]" offline_env]
    by (auto simp: member_def optional_images_def ascii_def)
  moreover have "POST offline_env (JObj [(ascii ''messages'', JArr [JNull])]) =
      Inl (EngineError (DestructureNullish (ascii ''experimental_attachments'')))"
    by (simp add: POST_def destructure_body_def member_def cleanedMessages_def)
  ultimately show ?thesis
    by (simp add: member_def ascii_def)
qed

text \<open>
  Claim C10, amended. For two bodies with the same auxiliary data whose conversation
  lists are arrays without \<^verbatim>\<open>null\<close> entries, the handler does the same on both,
  whatever the conversations and the model selectors are: it returns the same response
  (chunks, closed flag and headers) or throws the same error of line 25. It returns a
  response whenever the image list is absent or is not a plain object.
\<close>

theorem response_independent_of_conversation:
  assumes "member body1 (ascii ''data'') = member body2 (ascii ''data'')"
    and "member body1 (ascii ''messages'') = Some (JArr ms1)" and "JNull \<notin> set ms1"
    and "member body2 (ascii ''messages'') = Some (JArr ms2)" and "JNull \<notin> set ms2"
  shows "POST env body1 = POST env body2 \<and>
         ((\<forall>fs. optional_images (member body1 (ascii ''data'')) \<noteq> Some (JObj fs)) \<longrightarrow>
          (\<exists>r. POST env body1 = Inr r \<and> POST env body2 = Inr r))"
proof -
  have same: "POST env body1 = POST env body2"
    by (rule POST_same_data [OF assms])
  show ?thesis
    using same POST_returns [OF assms(2,3), of env] by auto
qed

text \<open>
  Two bodies with one image, different conversations, one with a model selector.
\<close>

theorem response_independent_of_conversation_witness:
  "POST (service_env 200 two_detections)
     (JObj [(ascii ''messages'', JArr [JObj [(ascii ''content'', JStr (ascii ''hi''))]]),
            (ascii ''selectedModel'', JStr (ascii ''llama'')),
            (ascii ''data'', JObj [(ascii ''images'', one_image)])]) =
   POST (service_env 200 two_detections)
     (JObj [(ascii ''messages'', JArr []),
            (ascii ''data'', JObj [(ascii ''images'', one_image)])]) \<and>
   (\<exists>r. POST (service_env 200 two_detections)
     (JObj [(ascii ''messages'', JArr [JObj [(ascii ''content'', JStr (ascii ''hi''))]]),
            (ascii ''selectedModel'', JStr (ascii ''llama'')),
            (ascii ''data'', JObj [(ascii ''images'', one_image)])]) = Inr r)"
  using response_independent_of_conversation
    [of "JObj [(ascii ''messages'', JArr [JObj [(ascii ''content'', JStr (ascii ''hi''))]]),
               (ascii ''selectedModel'', JStr (ascii ''llama'')),
               (ascii ''data'', JObj [(ascii ''images'', one_image)])]"
        "JObj [(ascii ''messages'', JArr []),
               (ascii ''data'', JObj [(ascii ''images'', one_image)])]"
        "[JObj [(ascii ''content'', JStr (ascii ''hi''))]]" "[]"
        "service_env 200 two_detections"]
  by (auto simp: member_def optional_images_def one_image_def ascii_def)

end
